theory Spec2Isabelle
  imports Main "HOL-Library.Word"
begin

unbundle bit_operations_syntax

section \<open>Data model (svm.h)\<close>

text \<open>
  \<open>int32_t\<close> and \<open>uint32_t\<close> are both 32-bit words: \<open>sint\<close> reads a word as the signed
  value, \<open>unat\<close> as the unsigned one, and the order \<open><\<close> on words is the unsigned order
  that C uses once one operand of a comparison is \<open>uint32_t\<close>.
\<close>

type_synonym i32 = "32 word"
type_synonym u32 = "32 word"

text \<open>The opcodes handled by the \<open>switch\<close> of \<open>svm_cycle\<close>, in the order of the enum.\<close>

datatype svm_opcode =
    OP_NOP | OP_END | OP_MOV | OP_PUSH | OP_POP
  | OP_ADD | OP_SUB | OP_MUL | OP_DIV | OP_AND | OP_OR | OP_XOR | OP_SHL | OP_SHR
  | OP_CMP | OP_CLF | OP_JMP | OP_INV | OP_RET | OP_SYS

datatype svm_ext =
    EXT_NONE | EXT_EQ | EXT_NE | EXT_LT | EXT_LE | EXT_GT | EXT_GE | EXT_NZ | EXT_Z

datatype svm_error =
    SVM_OK | SVM_ERR | SVM_ERR_NULL | SVM_ERR_BAD_ALLOC | SVM_ERR_NOT_RUNNING
  | SVM_ERR_CODE_OVERFLOW | SVM_ERR_ARG_NOT_REG | SVM_ERR_PUSH_ARG_BAD_ORDER
  | SVM_ERR_JMP_OVERFLOW | SVM_ERR_CALL_STK_OVERFLOW | SVM_ERR_CALL_STK_UNDERFLOW
  | SVM_ERR_STK_OVERFLOW | SVM_ERR_STK_UNDERFLOW | SVM_ERR_TASK_NOT_FOUND
  | SVM_ERR_TASK_SWITCH_BLOCKED | SVM_ERR_UNKNOWN_INSTRUCTION

text \<open>
  The four 8-bit fields of \<open>svm_instruction_t\<close> hold any byte, also one that names no
  enumerator, so the decoded fields are numbers; the two functions below give the
  enumerator a byte stands for, if any.
\<close>

definition svm_opcode_of_byte :: "nat \<Rightarrow> svm_opcode option" where
  "svm_opcode_of_byte b =
     (if b < 20 then
        Some ([OP_NOP, OP_END, OP_MOV, OP_PUSH, OP_POP, OP_ADD, OP_SUB, OP_MUL, OP_DIV,
               OP_AND, OP_OR, OP_XOR, OP_SHL, OP_SHR, OP_CMP, OP_CLF, OP_JMP, OP_INV,
               OP_RET, OP_SYS] ! b)
      else None)"

definition svm_ext_of_byte :: "nat \<Rightarrow> svm_ext option" where
  "svm_ext_of_byte b =
     (if b < 9 then
        Some ([EXT_NONE, EXT_EQ, EXT_NE, EXT_LT, EXT_LE, EXT_GT, EXT_GE, EXT_NZ, EXT_Z] ! b)
      else None)"

definition byte_of_opcode :: "svm_opcode \<Rightarrow> nat" where
  "byte_of_opcode c =
     (case c of OP_NOP \<Rightarrow> 0 | OP_END \<Rightarrow> 1 | OP_MOV \<Rightarrow> 2 | OP_PUSH \<Rightarrow> 3 | OP_POP \<Rightarrow> 4
      | OP_ADD \<Rightarrow> 5 | OP_SUB \<Rightarrow> 6 | OP_MUL \<Rightarrow> 7 | OP_DIV \<Rightarrow> 8 | OP_AND \<Rightarrow> 9
      | OP_OR \<Rightarrow> 10 | OP_XOR \<Rightarrow> 11 | OP_SHL \<Rightarrow> 12 | OP_SHR \<Rightarrow> 13 | OP_CMP \<Rightarrow> 14
      | OP_CLF \<Rightarrow> 15 | OP_JMP \<Rightarrow> 16 | OP_INV \<Rightarrow> 17 | OP_RET \<Rightarrow> 18 | OP_SYS \<Rightarrow> 19)"

definition byte_of_ext :: "svm_ext \<Rightarrow> nat" where
  "byte_of_ext e =
     (case e of EXT_NONE \<Rightarrow> 0 | EXT_EQ \<Rightarrow> 1 | EXT_NE \<Rightarrow> 2 | EXT_LT \<Rightarrow> 3 | EXT_LE \<Rightarrow> 4
      | EXT_GT \<Rightarrow> 5 | EXT_GE \<Rightarrow> 6 | EXT_NZ \<Rightarrow> 7 | EXT_Z \<Rightarrow> 8)"

text \<open>Argument types: \<open>ARG_NONE = 0\<close>, \<open>ARG_R0 .. ARG_R15 = 1 .. 16\<close>, \<open>ARG_IMM = 17\<close>.\<close>

definition ARG_NONE :: nat where "ARG_NONE = 0"
definition ARG_IMM :: nat where "ARG_IMM = 17"
definition R_MAX :: nat where "R_MAX = 16"

record svm_instruction =
  i_op :: nat
  i_ext :: nat
  i_arg1 :: nat
  i_arg2 :: nat

record svm_flags =
  flags_eq :: bool
  flags_ne :: bool
  flags_lt :: bool
  flags_le :: bool
  flags_gt :: bool
  flags_ge :: bool
  flags_nz :: bool
  flags_z :: bool

text \<open>
  \<open>svm_i32_buffer_t\<close>: the allocated words and the \<open>size\<close> field the bounds checks of
  the code read. An access at an index outside \<open>buffer\<close> is undefined behaviour in C.
\<close>

record svm_i32_buffer =
  buffer :: "i32 list"
  bsize :: u32

record svm_code =
  code_buffer :: "i32 list"
  code_size :: u32
  meta_call_stack_size :: u32
  meta_stack_size :: u32

text \<open>\<open>svm_task_t\<close>. Tasks live at addresses; \<open>task_next\<close> is the \<open>next\<close> pointer.\<close>

record svm_task =
  task_next :: "nat option"
  flags :: svm_flags
  pc :: u32
  rpc :: u32
  sp :: u32
  registers :: "i32 list"
  stack :: svm_i32_buffer
  call_stack :: svm_i32_buffer

text \<open>
  \<open>svm_t\<close>, with the memory that holds the tasks: \<open>heap\<close> maps the address of every live
  task to its contents. \<open>ctx\<close> is the host state behind the \<open>void *\<close> user context.
\<close>

record 'c svm =
  running :: bool
  task_switch_block :: bool
  current :: "nat option"
  head :: "nat option"
  code :: svm_code
  ctx :: 'c
  heap :: "nat \<Rightarrow> svm_task option"

text \<open>
  The host's \<open>svm_sys_handler(ctx, &registers, syscall_num)\<close>: it may change the host
  state and the sixteen registers it is given a pointer to.
\<close>

type_synonym 'c sys_handler = "'c \<Rightarrow> i32 list \<Rightarrow> i32 \<Rightarrow> 'c \<times> i32 list"

section \<open>Undefined behaviour\<close>

text \<open>
  Results are options: \<open>None\<close> stands for a run that leaves defined C (an access outside
  an array, a null pointer, a division by zero, a signed overflow). Every array access of
  the source goes through \<open>nth_ub\<close> or \<open>upd_ub\<close>.
\<close>

definition nth_ub :: "'a list \<Rightarrow> nat \<Rightarrow> 'a option" where
  "nth_ub xs i = (if i < length xs then Some (xs ! i) else None)"

definition upd_ub :: "'a list \<Rightarrow> nat \<Rightarrow> 'a \<Rightarrow> 'a list option" where
  "upd_ub xs i v = (if i < length xs then Some (xs[i := v]) else None)"

definition in_i32 :: "int \<Rightarrow> bool" where
  "in_i32 r \<longleftrightarrow> - (2 ^ 31) \<le> r \<and> r < 2 ^ 31"

definition to_i32 :: "int \<Rightarrow> i32 option" where
  "to_i32 r = (if in_i32 r then Some (word_of_int r) else None)"

text \<open>C's \<open>/\<close> truncates towards zero.\<close>

definition trunc_div :: "int \<Rightarrow> int \<Rightarrow> int" where
  "trunc_div a b = sgn a * sgn b * (\<bar>a\<bar> div \<bar>b\<bar>)"

definition c_add :: "i32 \<Rightarrow> i32 \<Rightarrow> i32 option" where
  "c_add a b = to_i32 (sint a + sint b)"

definition c_sub :: "i32 \<Rightarrow> i32 \<Rightarrow> i32 option" where
  "c_sub a b = to_i32 (sint a - sint b)"

definition c_mul :: "i32 \<Rightarrow> i32 \<Rightarrow> i32 option" where
  "c_mul a b = to_i32 (sint a * sint b)"

definition c_div :: "i32 \<Rightarrow> i32 \<Rightarrow> i32 option" where
  "c_div a b = (if b = 0 then None else to_i32 (trunc_div (sint a) (sint b)))"

definition c_and :: "i32 \<Rightarrow> i32 \<Rightarrow> i32 option" where
  "c_and a b = Some (a AND b)"

definition c_or :: "i32 \<Rightarrow> i32 \<Rightarrow> i32 option" where
  "c_or a b = Some (a OR b)"

definition c_xor :: "i32 \<Rightarrow> i32 \<Rightarrow> i32 option" where
  "c_xor a b = Some (a XOR b)"

text \<open>
  \<open><<\<close> on \<open>int32_t\<close> is defined for a count in \<open>0 .. 31\<close> and a non-negative left operand
  whose shifted value is representable; \<open>>>\<close> for a count in \<open>0 .. 31\<close>, arithmetic on a
  negative left operand (the choice of gcc and clang).
\<close>

definition c_shl :: "i32 \<Rightarrow> i32 \<Rightarrow> i32 option" where
  "c_shl a b =
     (if 0 \<le> sint b \<and> sint b < 32 \<and> 0 \<le> sint a then to_i32 (sint a * 2 ^ unat b)
      else None)"

definition c_shr :: "i32 \<Rightarrow> i32 \<Rightarrow> i32 option" where
  "c_shr a b =
     (if 0 \<le> sint b \<and> sint b < 32 then Some (signed_drop_bit (unat b) a) else None)"

definition c_mov :: "i32 \<Rightarrow> i32 \<Rightarrow> i32 option" where
  "c_mov a b = Some b"

section \<open>Instruction decoding\<close>

text \<open>
  \<open>svm_cycle\<close> reads a code word through a pointer to the packed struct: on the
  little-endian targets the bytecode format is defined for, \<open>op\<close> is the lowest byte,
  then \<open>ext\<close>, \<open>arg1\<close>, \<open>arg2\<close>.
\<close>

definition byte_at :: "nat \<Rightarrow> i32 \<Rightarrow> nat" where
  "byte_at k w = unat (drop_bit (8 * k) w AND 255)"

definition svm_decode :: "i32 \<Rightarrow> svm_instruction" where
  "svm_decode w =
     \<lparr>i_op = byte_at 0 w, i_ext = byte_at 1 w, i_arg1 = byte_at 2 w, i_arg2 = byte_at 3 w\<rparr>"

text \<open>\<open>svm_instruction_to_int32 (svm_pack_instruction op ext arg1 arg2)\<close>.\<close>

definition svm_pack_instruction :: "nat \<Rightarrow> nat \<Rightarrow> nat \<Rightarrow> nat \<Rightarrow> i32" where
  "svm_pack_instruction opb extb a1 a2 =
     word_of_nat (opb mod 256) OR push_bit 8 (word_of_nat (extb mod 256))
       OR push_bit 16 (word_of_nat (a1 mod 256)) OR push_bit 24 (word_of_nat (a2 mod 256))"

section \<open>Private functions of svm.c\<close>

definition svm_is_arg_register :: "nat \<Rightarrow> bool" where
  "svm_is_arg_register ty \<longleftrightarrow> ty > ARG_NONE \<and> ty < ARG_IMM"

text \<open>\<open>svm_arg_to_reg\<close> (svm_util.c): \<open>ARG_Rn\<close> gives \<open>n\<close>, anything else \<open>R_MAX\<close>.\<close>

definition svm_arg_to_reg :: "nat \<Rightarrow> nat" where
  "svm_arg_to_reg a = (if 1 \<le> a \<and> a \<le> 16 then a - 1 else R_MAX)"

definition svm_get_arg_value :: "svm_code \<Rightarrow> svm_task \<Rightarrow> nat \<Rightarrow> (i32 \<times> svm_task) option" where
  "svm_get_arg_value c t ty =
     (if svm_is_arg_register ty then
        (let reg = svm_arg_to_reg ty in
         if reg < R_MAX then
           (case nth_ub (registers t) reg of None \<Rightarrow> None | Some v \<Rightarrow> Some (v, t))
         else Some (0, t))
      else if ty = ARG_IMM then
        (case nth_ub (code_buffer c) (unat (pc t)) of
           None \<Rightarrow> None
         | Some v \<Rightarrow> Some (v, t\<lparr>pc := pc t + 1\<rparr>))
      else Some (0, t))"

definition svm_check_condition :: "svm_task \<Rightarrow> nat \<Rightarrow> bool" where
  "svm_check_condition t e =
     (case svm_ext_of_byte e of
        Some EXT_NONE \<Rightarrow> True
      | Some EXT_EQ \<Rightarrow> flags_eq (flags t)
      | Some EXT_NE \<Rightarrow> flags_ne (flags t)
      | Some EXT_LT \<Rightarrow> flags_lt (flags t)
      | Some EXT_LE \<Rightarrow> flags_le (flags t)
      | Some EXT_GT \<Rightarrow> flags_gt (flags t)
      | Some EXT_GE \<Rightarrow> flags_ge (flags t)
      | Some EXT_NZ \<Rightarrow> flags_nz (flags t)
      | Some EXT_Z \<Rightarrow> flags_z (flags t)
      | None \<Rightarrow> False)"

definition svm_check_value_set_nz_z_flags :: "svm_task \<Rightarrow> i32 \<Rightarrow> svm_task" where
  "svm_check_value_set_nz_z_flags t v =
     (if v \<noteq> 0 then t\<lparr>flags := (flags t)\<lparr>flags_nz := True\<rparr>\<rparr>
      else t\<lparr>flags := (flags t)\<lparr>flags_z := True\<rparr>\<rparr>)"

definition svm_set_flag_by_ext :: "svm_task \<Rightarrow> nat \<Rightarrow> bool \<Rightarrow> svm_task" where
  "svm_set_flag_by_ext t e v =
     (case svm_ext_of_byte e of
        Some EXT_NONE \<Rightarrow>
          t\<lparr>flags := \<lparr>flags_eq = v, flags_ne = v, flags_lt = v, flags_le = v,
                       flags_gt = v, flags_ge = v, flags_nz = v, flags_z = v\<rparr>\<rparr>
      | Some EXT_EQ \<Rightarrow> t\<lparr>flags := (flags t)\<lparr>flags_eq := v\<rparr>\<rparr>
      | Some EXT_NE \<Rightarrow> t\<lparr>flags := (flags t)\<lparr>flags_ne := v\<rparr>\<rparr>
      | Some EXT_LT \<Rightarrow> t\<lparr>flags := (flags t)\<lparr>flags_lt := v\<rparr>\<rparr>
      | Some EXT_LE \<Rightarrow> t\<lparr>flags := (flags t)\<lparr>flags_le := v\<rparr>\<rparr>
      | Some EXT_GT \<Rightarrow> t\<lparr>flags := (flags t)\<lparr>flags_gt := v\<rparr>\<rparr>
      | Some EXT_GE \<Rightarrow> t\<lparr>flags := (flags t)\<lparr>flags_ge := v\<rparr>\<rparr>
      | Some EXT_NZ \<Rightarrow> t\<lparr>flags := (flags t)\<lparr>flags_nz := v\<rparr>\<rparr>
      | Some EXT_Z \<Rightarrow> t\<lparr>flags := (flags t)\<lparr>flags_z := v\<rparr>\<rparr>
      | None \<Rightarrow> t)"

section \<open>The execution cycle (svm.c)\<close>

text \<open>
  Index variables of the PUSH and POP loops have the C library's type \<open>register_t\<close>, a
  signed machine word, so they are integers here and an index below zero is outside
  the array.
\<close>

definition nth_ub_int :: "'a list \<Rightarrow> int \<Rightarrow> 'a option" where
  "nth_ub_int xs i = (if 0 \<le> i then nth_ub xs (nat i) else None)"

definition upd_ub_int :: "'a list \<Rightarrow> int \<Rightarrow> 'a \<Rightarrow> 'a list option" where
  "upd_ub_int xs i v = (if 0 \<le> i then upd_ub xs (nat i) v else None)"

text \<open>\<open>stack.buffer[sp++] = v\<close>\<close>

definition push_value :: "svm_task \<Rightarrow> i32 \<Rightarrow> svm_task option" where
  "push_value t v =
     (case upd_ub (buffer (stack t)) (unat (sp t)) v of
        None \<Rightarrow> None
      | Some b \<Rightarrow> Some (t\<lparr>sp := sp t + 1, stack := (stack t)\<lparr>buffer := b\<rparr>\<rparr>))"

text \<open>\<open>registers[r] = stack.buffer[--sp]\<close>\<close>

definition pop_value :: "svm_task \<Rightarrow> int \<Rightarrow> svm_task option" where
  "pop_value t r =
     (case nth_ub (buffer (stack t)) (unat (sp t - 1)) of
        None \<Rightarrow> None
      | Some v \<Rightarrow>
          (case upd_ub_int (registers t) r v of
             None \<Rightarrow> None
           | Some rs \<Rightarrow> Some (t\<lparr>sp := sp t - 1, registers := rs\<rparr>)))"

text \<open>\<open>for (register_t r = from; r <= to; r++) stack.buffer[sp++] = registers[r];\<close>\<close>

function push_range :: "int \<Rightarrow> int \<Rightarrow> svm_task \<Rightarrow> svm_task option" where
  "push_range r to t =
     (if r \<le> to then
        (case nth_ub_int (registers t) r of
           None \<Rightarrow> None
         | Some v \<Rightarrow>
             (case push_value t v of
                None \<Rightarrow> None
              | Some t' \<Rightarrow> push_range (r + 1) to t'))
      else Some t)"
  by pat_completeness auto
termination
  by (relation "measure (\<lambda>(r, to, t). nat (to + 1 - r))") auto

text \<open>\<open>for (register_t r = to; r >= from; r--) registers[r] = stack.buffer[--sp];\<close>\<close>

function pop_range :: "int \<Rightarrow> int \<Rightarrow> svm_task \<Rightarrow> svm_task option" where
  "pop_range r from t =
     (if r \<ge> from then
        (case pop_value t r of
           None \<Rightarrow> None
         | Some t' \<Rightarrow> pop_range (r - 1) from t')
      else Some t)"
  by pat_completeness auto
termination
  by (relation "measure (\<lambda>(r, from, t). nat (r + 1 - from))") auto

text \<open>
  The body shared by MOV, ADD, SUB, MUL, DIV, AND, OR, XOR, SHL and SHR, which differ in
  the operator \<open>f\<close> only: fetch \<open>arg2\<close>, test the predicate, check that \<open>arg1\<close> is a
  register, store, set NZ or Z.
\<close>

definition svm_alu ::
  "(i32 \<Rightarrow> i32 \<Rightarrow> i32 option) \<Rightarrow> svm_code \<Rightarrow> svm_instruction \<Rightarrow> svm_task
     \<Rightarrow> (svm_error \<times> svm_task) option" where
  "svm_alu f c ins t =
     (case svm_get_arg_value c t (i_arg2 ins) of
        None \<Rightarrow> None
      | Some (arg2, t1) \<Rightarrow>
          if \<not> svm_check_condition t1 (i_ext ins) then Some (SVM_OK, t1)
          else
            (let reg = svm_arg_to_reg (i_arg1 ins) in
             if \<not> reg < R_MAX then Some (SVM_ERR_ARG_NOT_REG, t1)
             else
               (case nth_ub (registers t1) reg of
                  None \<Rightarrow> None
                | Some old \<Rightarrow>
                    (case f old arg2 of
                       None \<Rightarrow> None
                     | Some v \<Rightarrow>
                         Some (SVM_OK,
                           svm_check_value_set_nz_z_flags
                             (t1\<lparr>registers := (registers t1)[reg := v]\<rparr>) v)))))"

definition svm_push ::
  "svm_code \<Rightarrow> svm_instruction \<Rightarrow> svm_task \<Rightarrow> (svm_error \<times> svm_task) option" where
  "svm_push c ins t =
     (case (if i_arg1 ins = ARG_IMM then svm_get_arg_value c t (i_arg1 ins) else Some (0, t)) of
        None \<Rightarrow> None
      | Some (arg1, t1) \<Rightarrow>
          if \<not> svm_check_condition t1 (i_ext ins) then Some (SVM_OK, t1)
          else if i_arg1 ins = ARG_IMM then
            (if sp t1 + 1 \<ge> bsize (stack t1) then Some (SVM_ERR_STK_OVERFLOW, t1)
             else map_option (Pair SVM_OK) (push_value t1 arg1))
          else if i_arg2 ins = ARG_NONE then
            (let reg = svm_arg_to_reg (i_arg1 ins) in
             if sp t1 + 1 \<ge> bsize (stack t1) then Some (SVM_ERR_STK_OVERFLOW, t1)
             else
               (case nth_ub (registers t1) reg of
                  None \<Rightarrow> None
                | Some v \<Rightarrow> map_option (Pair SVM_OK) (push_value t1 v)))
          else
            (let from = int (svm_arg_to_reg (i_arg1 ins));
                 to = int (svm_arg_to_reg (i_arg2 ins)) in
             if \<not> from < to then Some (SVM_ERR_PUSH_ARG_BAD_ORDER, t1)
             else if uint (sp t1) + to - from \<ge> uint (bsize (stack t1))
               then Some (SVM_ERR_STK_OVERFLOW, t1)
             else map_option (Pair SVM_OK) (push_range from to t1)))"

definition svm_pop ::
  "svm_instruction \<Rightarrow> svm_task \<Rightarrow> (svm_error \<times> svm_task) option" where
  "svm_pop ins t =
     (if \<not> svm_check_condition t (i_ext ins) then Some (SVM_OK, t)
      else if svm_is_arg_register (i_arg1 ins) \<and> i_arg2 ins = ARG_NONE then
        (if sp t < 1 then Some (SVM_ERR_STK_UNDERFLOW, t)
         else
           (let reg = svm_arg_to_reg (i_arg1 ins) in
            case nth_ub (buffer (stack t)) (unat (sp t)) of
              None \<Rightarrow> None
            | Some v \<Rightarrow>
                (case upd_ub (registers t) reg v of
                   None \<Rightarrow> None
                 | Some rs \<Rightarrow> Some (SVM_OK, t\<lparr>sp := sp t - 1, registers := rs\<rparr>))))
      else if \<not> svm_is_arg_register (i_arg1 ins) then Some (SVM_ERR_ARG_NOT_REG, t)
      else if \<not> svm_is_arg_register (i_arg2 ins) then Some (SVM_ERR_ARG_NOT_REG, t)
      else
        (let from = int (svm_arg_to_reg (i_arg1 ins));
             to = int (svm_arg_to_reg (i_arg2 ins)) in
         if \<not> from < to then Some (SVM_ERR_PUSH_ARG_BAD_ORDER, t)
         else if uint (sp t) < to - from then Some (SVM_ERR_STK_UNDERFLOW, t)
         else map_option (Pair SVM_OK) (pop_range to from t)))"

text \<open>The six \<open>if\<close> statements of CMP, in the order of the source.\<close>

definition svm_cmp_flags :: "svm_flags \<Rightarrow> i32 \<Rightarrow> i32 \<Rightarrow> svm_flags" where
  "svm_cmp_flags f a b =
     (let f1 = (if a = b then f\<lparr>flags_eq := True\<rparr> else f);
          f2 = (if a \<noteq> b then f1\<lparr>flags_ne := True\<rparr> else f1);
          f3 = (if sint a > sint b then f2\<lparr>flags_gt := True\<rparr> else f2);
          f4 = (if sint a \<ge> sint b then f3\<lparr>flags_ge := True\<rparr> else f3);
          f5 = (if sint a < sint b then f4\<lparr>flags_lt := True\<rparr> else f4);
          f6 = (if sint a \<le> sint b then f5\<lparr>flags_le := True\<rparr> else f5)
      in f6)"

definition svm_cmp ::
  "svm_code \<Rightarrow> svm_instruction \<Rightarrow> svm_task \<Rightarrow> (svm_error \<times> svm_task) option" where
  "svm_cmp c ins t =
     (case svm_get_arg_value c t (i_arg1 ins) of
        None \<Rightarrow> None
      | Some (arg1, t1) \<Rightarrow>
          (case svm_get_arg_value c t1 (i_arg2 ins) of
             None \<Rightarrow> None
           | Some (arg2, t2) \<Rightarrow>
               Some (SVM_OK, t2\<lparr>flags := svm_cmp_flags (flags t2) arg1 arg2\<rparr>)))"

definition svm_jmp ::
  "svm_code \<Rightarrow> svm_instruction \<Rightarrow> svm_task \<Rightarrow> (svm_error \<times> svm_task) option" where
  "svm_jmp c ins t =
     (case svm_get_arg_value c t (i_arg1 ins) of
        None \<Rightarrow> None
      | Some (arg1, t1) \<Rightarrow>
          if \<not> svm_check_condition t1 (i_ext ins) then Some (SVM_OK, t1)
          else if arg1 < code_size c then Some (SVM_OK, t1\<lparr>pc := arg1\<rparr>)
          else Some (SVM_ERR_JMP_OVERFLOW, t1))"

definition svm_inv ::
  "svm_code \<Rightarrow> svm_instruction \<Rightarrow> svm_task \<Rightarrow> (svm_error \<times> svm_task) option" where
  "svm_inv c ins t =
     (case svm_get_arg_value c t (i_arg1 ins) of
        None \<Rightarrow> None
      | Some (arg1, t1) \<Rightarrow>
          if \<not> svm_check_condition t1 (i_ext ins) then Some (SVM_OK, t1)
          else if rpc t1 + 1 \<ge> bsize (call_stack t1) then Some (SVM_ERR_CALL_STK_OVERFLOW, t1)
          else
            (case upd_ub (buffer (call_stack t1)) (unat (rpc t1)) (pc t1) of
               None \<Rightarrow> None
             | Some b \<Rightarrow>
                 (let t2 = t1\<lparr>rpc := rpc t1 + 1,
                              call_stack := (call_stack t1)\<lparr>buffer := b\<rparr>\<rparr> in
                  if arg1 < code_size c then Some (SVM_OK, t2\<lparr>pc := arg1\<rparr>)
                  else Some (SVM_ERR_JMP_OVERFLOW, t2))))"

definition svm_ret :: "svm_task \<Rightarrow> (svm_error \<times> svm_task) option" where
  "svm_ret t =
     (if rpc t > 0 then
        (case nth_ub (buffer (call_stack t)) (unat (rpc t - 1)) of
           None \<Rightarrow> None
         | Some v \<Rightarrow> Some (SVM_OK, t\<lparr>pc := v, rpc := rpc t - 1\<rparr>))
      else Some (SVM_ERR_CALL_STK_UNDERFLOW, t))"

text \<open>Writing the current task back to its address.\<close>

definition store_task :: "'c svm \<Rightarrow> nat \<Rightarrow> svm_task \<Rightarrow> 'c svm" where
  "store_task vm a t = vm\<lparr>heap := (heap vm)(a := Some t)\<rparr>"

definition on_task ::
  "'c svm \<Rightarrow> nat \<Rightarrow> (svm_error \<times> svm_task) option \<Rightarrow> (svm_error \<times> 'c svm) option" where
  "on_task vm a r = (case r of None \<Rightarrow> None | Some (e, t) \<Rightarrow> Some (e, store_task vm a t))"

text \<open>
  The \<open>switch\<close> of \<open>svm_cycle\<close>. \<open>t\<close> is the current task, at address \<open>a\<close>, after the
  instruction word was fetched and \<open>pc\<close> advanced past it.
\<close>

definition svm_switch ::
  "'c sys_handler \<Rightarrow> 'c svm \<Rightarrow> nat \<Rightarrow> svm_instruction \<Rightarrow> svm_task
     \<Rightarrow> (svm_error \<times> 'c svm) option" where
  "svm_switch h vm a ins t =
     (case svm_opcode_of_byte (i_op ins) of
        None \<Rightarrow> Some (SVM_ERR_UNKNOWN_INSTRUCTION, store_task vm a t)
      | Some OP_NOP \<Rightarrow> Some (SVM_OK, store_task vm a t)
      | Some OP_END \<Rightarrow> Some (SVM_OK, store_task (vm\<lparr>running := False\<rparr>) a t)
      | Some OP_MOV \<Rightarrow> on_task vm a (svm_alu c_mov (code vm) ins t)
      | Some OP_PUSH \<Rightarrow> on_task vm a (svm_push (code vm) ins t)
      | Some OP_POP \<Rightarrow> on_task vm a (svm_pop ins t)
      | Some OP_ADD \<Rightarrow> on_task vm a (svm_alu c_add (code vm) ins t)
      | Some OP_SUB \<Rightarrow> on_task vm a (svm_alu c_sub (code vm) ins t)
      | Some OP_MUL \<Rightarrow> on_task vm a (svm_alu c_mul (code vm) ins t)
      | Some OP_DIV \<Rightarrow> on_task vm a (svm_alu c_div (code vm) ins t)
      | Some OP_AND \<Rightarrow> on_task vm a (svm_alu c_and (code vm) ins t)
      | Some OP_OR \<Rightarrow> on_task vm a (svm_alu c_or (code vm) ins t)
      | Some OP_XOR \<Rightarrow> on_task vm a (svm_alu c_xor (code vm) ins t)
      | Some OP_SHL \<Rightarrow> on_task vm a (svm_alu c_shl (code vm) ins t)
      | Some OP_SHR \<Rightarrow> on_task vm a (svm_alu c_shr (code vm) ins t)
      | Some OP_CMP \<Rightarrow> on_task vm a (svm_cmp (code vm) ins t)
      | Some OP_CLF \<Rightarrow> Some (SVM_OK, store_task vm a (svm_set_flag_by_ext t (i_ext ins) False))
      | Some OP_JMP \<Rightarrow> on_task vm a (svm_jmp (code vm) ins t)
      | Some OP_INV \<Rightarrow> on_task vm a (svm_inv (code vm) ins t)
      | Some OP_RET \<Rightarrow> on_task vm a (svm_ret t)
      | Some OP_SYS \<Rightarrow>
          (case svm_get_arg_value (code vm) t (i_arg1 ins) of
             None \<Rightarrow> None
           | Some (num, t1) \<Rightarrow>
               (case h (ctx vm) (registers t1) num of
                  (ctx', rs) \<Rightarrow>
                    Some (SVM_OK, store_task (vm\<lparr>ctx := ctx'\<rparr>) a (t1\<lparr>registers := rs\<rparr>)))))"

definition svm_cycle :: "'c sys_handler \<Rightarrow> 'c svm \<Rightarrow> (svm_error \<times> 'c svm) option" where
  "svm_cycle h vm =
     (if \<not> running vm then Some (SVM_ERR_NOT_RUNNING, vm)
      else
        (case current vm of
           None \<Rightarrow> None
         | Some a \<Rightarrow>
             (case heap vm a of
                None \<Rightarrow> None
              | Some t \<Rightarrow>
                  if pc t \<ge> code_size (code vm)
                  then Some (SVM_ERR_CODE_OVERFLOW, vm\<lparr>running := False\<rparr>)
                  else
                    (case nth_ub (code_buffer (code vm)) (unat (pc t)) of
                       None \<Rightarrow> None
                     | Some w \<Rightarrow> svm_switch h vm a (svm_decode w) (t\<lparr>pc := pc t + 1\<rparr>)))))"

text \<open>
  The first lines of \<open>svm_cycle\<close> as a predicate: the VM runs, its current task is \<open>t\<close> at
  address \<open>a\<close>, \<open>pc\<close> is inside the code and the word there decodes to \<open>ins\<close>.
\<close>

definition at_instruction :: "'c svm \<Rightarrow> nat \<Rightarrow> svm_task \<Rightarrow> svm_instruction \<Rightarrow> bool" where
  "at_instruction vm a t ins \<longleftrightarrow>
     running vm \<and> current vm = Some a \<and> heap vm a = Some t \<and> pc t < code_size (code vm) \<and>
     map_option svm_decode (nth_ub (code_buffer (code vm)) (unat (pc t))) = Some ins"

section \<open>Task list (svm.c)\<close>

text \<open>
  \<open>svm_task_init\<close>. \<open>SVM_REALLOC_CHECK (buffer, size)\<close> passes the number of entries to
  \<open>realloc\<close> as a number of bytes, so a stack whose \<open>size\<close> field is \<open>n\<close> is given room for
  \<open>n div 4\<close> words. Fresh memory holds anything; it is written as zeros here, and no
  theorem on an initialised task reads a word before it was stored.
\<close>

definition SVM_CALL_STACK_INIT_SIZE :: u32 where "SVM_CALL_STACK_INIT_SIZE = 8"
definition SVM_STACK_INIT_SIZE :: u32 where "SVM_STACK_INIT_SIZE = 32"

definition realloc_words :: "u32 \<Rightarrow> i32 list" where
  "realloc_words bytes = replicate (unat bytes div 4) 0"

definition svm_task_init :: "svm_code \<Rightarrow> u32 \<Rightarrow> i32 list \<Rightarrow> svm_task" where
  "svm_task_init c p rs =
     (let cs = (if meta_call_stack_size c \<noteq> 0 then meta_call_stack_size c
                else SVM_CALL_STACK_INIT_SIZE);
          ss = (if meta_stack_size c \<noteq> 0 then meta_stack_size c else SVM_STACK_INIT_SIZE)
      in \<lparr>task_next = None,
          flags = \<lparr>flags_eq = False, flags_ne = False, flags_lt = False, flags_le = False,
                    flags_gt = False, flags_ge = False, flags_nz = False, flags_z = False\<rparr>,
          pc = p, rpc = 0, sp = 0, registers = rs,
          stack = \<lparr>buffer = realloc_words ss, bsize = ss\<rparr>,
          call_stack = \<lparr>buffer = realloc_words cs, bsize = cs\<rparr>\<rparr>)"

text \<open>
  \<open>svm_task_deinit\<close> frees the two stack buffers of the task and leaves every other
  field; a freed buffer has no word left that may be accessed.
\<close>

definition svm_task_deinit :: "svm_task \<Rightarrow> svm_task" where
  "svm_task_deinit t =
     t\<lparr>call_stack := (call_stack t)\<lparr>buffer := []\<rparr>, stack := (stack t)\<lparr>buffer := []\<rparr>\<rparr>"

text \<open>
  The \<open>while (tmp)\<close> loop of \<open>svm_task_remove\<close>; its result is the value of \<open>tmp\<close> when the
  loop is left. A list that loops back on itself keeps it running for ever.
\<close>

partial_function (option) svm_task_remove_loop ::
  "(nat \<Rightarrow> svm_task option) \<Rightarrow> nat \<Rightarrow> nat option \<Rightarrow> nat option option" where
  "svm_task_remove_loop hp task tmp =
     (case tmp of
        None \<Rightarrow> Some None
      | Some p \<Rightarrow>
          (case hp task of
             None \<Rightarrow> None
           | Some tk \<Rightarrow>
               if task_next tk = Some task then Some (Some p)
               else
                 (case hp p of
                    None \<Rightarrow> None
                  | Some tp \<Rightarrow> svm_task_remove_loop hp task (task_next tp))))"

definition svm_task_remove :: "'c svm \<Rightarrow> nat option \<Rightarrow> (svm_error \<times> 'c svm) option" where
  "svm_task_remove vm task_ptr =
     (case task_ptr of
        None \<Rightarrow> Some (SVM_ERR_NULL, vm)
      | Some task \<Rightarrow>
          if head vm = Some task then
            (case heap vm task of
               None \<Rightarrow> None
             | Some tk \<Rightarrow>
                 Some (SVM_OK,
                   vm\<lparr>head := task_next tk, heap := (heap vm)(task := Some (svm_task_deinit tk))\<rparr>))
          else
            (case head vm of
               None \<Rightarrow> None
             | Some hd_addr \<Rightarrow>
                 (case heap vm hd_addr of
                    None \<Rightarrow> None
                  | Some hd_task \<Rightarrow>
                      (case svm_task_remove_loop (heap vm) task (task_next hd_task) of
                         None \<Rightarrow> None
                       | Some None \<Rightarrow> Some (SVM_ERR_TASK_NOT_FOUND, vm)
                       | Some (Some tmp) \<Rightarrow>
                           (case (heap vm tmp, heap vm task) of
                              (Some tp, Some tk) \<Rightarrow>
                                (let hp1 = (heap vm)(tmp := Some (tp\<lparr>task_next := task_next tk\<rparr>)) in
                                 case hp1 task of
                                   None \<Rightarrow> None
                                 | Some tk1 \<Rightarrow>
                                     Some (SVM_OK,
                                       vm\<lparr>heap := hp1(task := Some (svm_task_deinit tk1))\<rparr>))
                            | _ \<Rightarrow> None)))))"

text \<open>The tasks reachable from a pointer along \<open>next\<close>, in order, within \<open>n\<close> steps.\<close>

fun task_list :: "nat \<Rightarrow> (nat \<Rightarrow> svm_task option) \<Rightarrow> nat option \<Rightarrow> nat list" where
  "task_list 0 hp p = []"
| "task_list (Suc n) hp p =
     (case p of
        None \<Rightarrow> []
      | Some a \<Rightarrow> (case hp a of None \<Rightarrow> [a] | Some t \<Rightarrow> a # task_list n hp (task_next t)))"

section \<open>Numeric literals (svm_util.c)\<close>

definition c_isupper :: "nat \<Rightarrow> bool" where
  "c_isupper ch \<longleftrightarrow> 65 \<le> ch \<and> ch \<le> 90"

text \<open>
  The \<open>for\<close> loop of \<open>svm_to_int32\<close> over the characters from \<open>index\<close> on, with the value
  accumulated so far. The character codes: \<open>'0' = 48\<close>, \<open>'9' = 57\<close>, \<open>'a' = 97\<close>,
  \<open>'f' = 102\<close>, \<open>'A' = 65\<close>, \<open>'F' = 70\<close>. The result is the returned flag and \<open>*value\<close>.
\<close>

fun svm_to_int32_loop :: "i32 \<Rightarrow> i32 \<Rightarrow> string \<Rightarrow> (bool \<times> i32) option" where
  "svm_to_int32_loop base v [] = Some (True, v)"
| "svm_to_int32_loop base v (ch # cs) =
     (let k = (of_char ch :: nat) in
      if 48 \<le> k \<and> k < 57 then
        (case Option.bind (c_mul v base) (\<lambda>m. c_add m (word_of_nat (k - 48))) of
           None \<Rightarrow> None
         | Some v' \<Rightarrow> svm_to_int32_loop base v' cs)
      else if 97 \<le> k \<and> k \<le> 102 then
        (case Option.bind (c_mul v base) (\<lambda>m. c_add m (word_of_nat (k - 97))) of
           None \<Rightarrow> None
         | Some v' \<Rightarrow> svm_to_int32_loop base v' cs)
      else if 65 \<le> k \<and> k \<le> 70 then
        (case Option.bind (c_mul v base)
                (\<lambda>m. c_add m (if c_isupper k then word_of_nat (k - 65) else 0)) of
           None \<Rightarrow> None
         | Some v' \<Rightarrow> svm_to_int32_loop base v' cs)
      else Some (False, v))"

text \<open>\<open>str\<close> is the string without its terminating NUL, so \<open>strlen\<close> is its length.\<close>

definition svm_to_int32 :: "string \<Rightarrow> (bool \<times> i32) option" where
  "svm_to_int32 str =
     (if length str > 2 \<and> str ! 0 = CHR ''0'' \<and> str ! 1 = CHR ''x''
        then svm_to_int32_loop 16 0 (drop 2 str)
      else if length str > 2 \<and> str ! 0 = CHR ''0'' \<and> str ! 1 = CHR ''b''
        then svm_to_int32_loop 2 0 (drop 2 str)
      else svm_to_int32_loop 10 0 str)"

text \<open>What the specification asks of a literal: its value in the base its prefix selects.\<close>

definition digit_value :: "char \<Rightarrow> nat" where
  "digit_value ch =
     (let k = (of_char ch :: nat) in
      if 48 \<le> k \<and> k \<le> 57 then k - 48
      else if 97 \<le> k \<and> k \<le> 102 then k - 97 + 10
      else k - 65 + 10)"

definition literal_value :: "nat \<Rightarrow> string \<Rightarrow> nat" where
  "literal_value base ds = foldl (\<lambda>v ch. v * base + digit_value ch) 0 ds"

section \<open>Tokenizer (svm_asm.c)\<close>

text \<open>
  The source buffer is the list of its characters with the terminating NUL; a position
  is an index into it, and reading at an index outside the buffer is undefined.
\<close>

definition NUL :: char where "NUL = CHR 0x00"
definition NL :: char where "NL = CHR 0x0A"

text \<open>\<open>while (**source == ' ' || **source == '\n') (*source)++;\<close>\<close>

function skip_blanks :: "string \<Rightarrow> nat \<Rightarrow> nat option" where
  "skip_blanks buf p =
     (case nth_ub buf p of
        None \<Rightarrow> None
      | Some ch \<Rightarrow> if ch = CHR '' '' \<or> ch = NL then skip_blanks buf (p + 1) else Some p)"
  by pat_completeness auto
termination
  by (relation "measure (\<lambda>(buf, p). length buf - p)") (auto simp: nth_ub_def split: if_splits)

text \<open>\<open>while (**source != '\n' || **source != '\0') (*source)++;\<close>\<close>

function skip_comment :: "string \<Rightarrow> nat \<Rightarrow> nat option" where
  "skip_comment buf p =
     (case nth_ub buf p of
        None \<Rightarrow> None
      | Some ch \<Rightarrow> if ch \<noteq> NL \<or> ch \<noteq> NUL then skip_comment buf (p + 1) else Some p)"
  by pat_completeness auto
termination
  by (relation "measure (\<lambda>(buf, p). length buf - p)") (auto simp: nth_ub_def split: if_splits)

text \<open>
  \<open>while (**source != ' ' && **source != '\n' && **source != '.' && **source != '\0')
  (*source)++;\<close>
\<close>

function scan_token :: "string \<Rightarrow> nat \<Rightarrow> nat option" where
  "scan_token buf p =
     (case nth_ub buf p of
        None \<Rightarrow> None
      | Some ch \<Rightarrow>
          if ch \<noteq> CHR '' '' \<and> ch \<noteq> NL \<and> ch \<noteq> CHR ''.'' \<and> ch \<noteq> NUL
          then scan_token buf (p + 1) else Some p)"
  by pat_completeness auto
termination
  by (relation "measure (\<lambda>(buf, p). length buf - p)") (auto simp: nth_ub_def split: if_splits)

text \<open>
  \<open>svm_asm_next_token\<close>: \<open>src\<close> is \<open>*source\<close> and \<open>src_end\<close> is \<open>source_end\<close>. The result is
  the returned pointer (\<open>None\<close> for \<open>NULL\<close>, else the index where the token starts), the
  buffer and the new \<open>*source\<close>.
\<close>

definition svm_asm_next_token ::
  "string \<Rightarrow> nat \<Rightarrow> nat \<Rightarrow> (nat option \<times> string \<times> nat) option" where
  "svm_asm_next_token buf src src_end =
     (if src \<ge> src_end then Some (None, buf, src)
      else
        (case skip_blanks buf src of
           None \<Rightarrow> None
         | Some p1 \<Rightarrow>
             (case (case nth_ub buf p1 of
                      None \<Rightarrow> None
                    | Some ch \<Rightarrow> if ch = CHR ''#'' then skip_comment buf p1 else Some p1) of
                None \<Rightarrow> None
              | Some token \<Rightarrow>
                  (case scan_token buf token of
                     None \<Rightarrow> None
                   | Some p3 \<Rightarrow>
                       (case upd_ub buf p3 NUL of
                          None \<Rightarrow> None
                        | Some buf' \<Rightarrow> Some (Some token, buf', p3 + 1))))))"

text \<open>The token a returned pointer names: the characters from it up to the next NUL.\<close>

definition token_text :: "string \<Rightarrow> nat \<Rightarrow> string" where
  "token_text buf p = takeWhile (\<lambda>ch. ch \<noteq> NUL) (drop p buf)"

section \<open>Example states\<close>

text \<open>
  A task with all flags clear, empty stacks of capacity 8 and 4, and a one-task VM
  running a given code image; they instantiate the theorems below.
\<close>

definition demo_flags :: svm_flags where
  "demo_flags = \<lparr>flags_eq = False, flags_ne = False, flags_lt = False, flags_le = False,
     flags_gt = False, flags_ge = False, flags_nz = False, flags_z = False\<rparr>"

definition demo_task :: "i32 list \<Rightarrow> svm_task" where
  "demo_task rs = \<lparr>task_next = None, flags = demo_flags,
     pc = 0, rpc = 0, sp = 0, registers = rs,
     stack = \<lparr>buffer = [0, 0, 0, 0, 0, 0, 0, 0], bsize = 8\<rparr>,
     call_stack = \<lparr>buffer = [0, 0, 0, 0], bsize = 4\<rparr>\<rparr>"

definition demo_code :: "i32 list \<Rightarrow> svm_code" where
  "demo_code ws = \<lparr>code_buffer = ws, code_size = word_of_nat (length ws),
     meta_call_stack_size = 0, meta_stack_size = 0\<rparr>"

definition demo_vm :: "i32 list \<Rightarrow> svm_task \<Rightarrow> unit svm" where
  "demo_vm ws t = \<lparr>running = True, task_switch_block = False, current = Some 0, head = Some 0,
     code = demo_code ws, ctx = (), heap = (\<lambda>_. None)(0 := Some t)\<rparr>"

definition demo_regs :: "i32 list" where
  "demo_regs = [7, 2, 3, 4, 5, 6, 7, 8, 9, 10, 11, 12, 13, 14, 15, 16]"

definition demo_handler :: "unit sys_handler" where
  "demo_handler c rs n = (c, rs[0 := n])"

text \<open>
  The operand slot an opcode passes to \<open>svm_get_arg_value\<close> before it tests the predicate:
  \<open>arg1\<close> for PUSH, JMP and INV, none for NOP, POP and CLF, \<open>arg2\<close> for MOV and the
  arithmetic and logic opcodes.
\<close>

definition fetched_arg :: "svm_opcode \<Rightarrow> svm_instruction \<Rightarrow> nat" where
  "fetched_arg opc ins =
     (if opc \<in> {OP_PUSH, OP_JMP, OP_INV} then i_arg1 ins
      else if opc \<in> {OP_NOP, OP_POP, OP_CLF} then ARG_NONE
      else i_arg2 ins)"

text \<open>
  The effect of pushing the values \<open>vs\<close> in order, and of popping \<open>n\<close> values into the
  registers \<open>lo .. lo + n - 1\<close>, the highest register taking the top of the stack; the
  loops \<open>push_range\<close> and \<open>pop_range\<close> are compared with them below.
\<close>

definition pushed :: "svm_task \<Rightarrow> i32 list \<Rightarrow> svm_task" where
  "pushed t vs =
     t\<lparr>sp := sp t + word_of_nat (length vs),
       stack := (stack t)\<lparr>buffer :=
         take (unat (sp t)) (buffer (stack t)) @ vs @
         drop (unat (sp t) + length vs) (buffer (stack t))\<rparr>\<rparr>"

definition popped :: "svm_task \<Rightarrow> nat \<Rightarrow> nat \<Rightarrow> svm_task" where
  "popped t lo n =
     t\<lparr>sp := sp t - word_of_nat n,
       registers :=
         take lo (registers t) @ take n (drop (unat (sp t) - n) (buffer (stack t))) @
         drop (lo + n) (registers t)\<rparr>"

text \<open>\<open>t'\<close> is \<open>t\<close> but for its \<open>pc\<close>.\<close>

definition pc_only :: "svm_task \<Rightarrow> svm_task \<Rightarrow> bool" where
  "pc_only t t' \<longleftrightarrow> t' = t\<lparr>pc := pc t'\<rparr>"

text \<open>The list that starts at \<open>p\<close> reaches the null pointer within \<open>n\<close> steps.\<close>

fun chain_ends :: "nat \<Rightarrow> (nat \<Rightarrow> svm_task option) \<Rightarrow> nat option \<Rightarrow> bool" where
  "chain_ends 0 hp p = (p = None)"
| "chain_ends (Suc n) hp p =
     (case p of
        None \<Rightarrow> True
      | Some a \<Rightarrow> (case hp a of None \<Rightarrow> False | Some t \<Rightarrow> chain_ends n hp (task_next t)))"

text \<open>
  A VM whose one task is built by \<open>svm_task_init\<close> with the default sizes, and the program
  \<open>push r0 r2\<close>, \<open>pop r0 r2\<close>.
\<close>

definition init_vm :: "i32 list \<Rightarrow> unit svm" where
  "init_vm ws = demo_vm ws (svm_task_init (demo_code ws) 0 demo_regs)"

definition demo_push_pop :: "i32 list" where
  "demo_push_pop = [svm_pack_instruction 3 0 1 3, svm_pack_instruction 4 0 1 3]"

text \<open>A source buffer that starts with a comment line, and a list of two tasks.\<close>

definition demo_source :: string where
  "demo_source = ''# c'' @ [NL] @ ''end'' @ [NUL]"

definition demo_list_vm :: "unit svm" where
  "demo_list_vm = \<lparr>running = True, task_switch_block = False, current = Some 1, head = Some 1,
     code = demo_code [], ctx = (),
     heap = (\<lambda>_. None)(1 := Some ((demo_task demo_regs)\<lparr>task_next := Some 2\<rparr>),
                          2 := Some (demo_task demo_regs))\<rparr>"

section \<open>Basic facts\<close>

text \<open>The equations of the loops are unfolded by hand, one step at a time.\<close>

declare push_range.simps [simp del] pop_range.simps [simp del]
declare skip_blanks.simps [simp del] skip_comment.simps [simp del] scan_token.simps [simp del]

lemmas demo_defs = demo_vm_def demo_task_def demo_code_def demo_regs_def demo_flags_def
  demo_handler_def
lemmas decode_defs = svm_decode_def svm_pack_instruction_def byte_at_def
lemmas arg_defs = ARG_NONE_def ARG_IMM_def R_MAX_def svm_is_arg_register_def svm_arg_to_reg_def

lemma opcode_of_byte_of: "svm_opcode_of_byte (byte_of_opcode c) = Some c"
  by (cases c) (simp_all add: svm_opcode_of_byte_def byte_of_opcode_def)

lemma ext_of_byte_of: "svm_ext_of_byte (byte_of_ext e) = Some e"
  by (cases e) (simp_all add: svm_ext_of_byte_def byte_of_ext_def)

lemma svm_cycle_at:
  "at_instruction vm a t ins \<Longrightarrow> svm_cycle h vm = svm_switch h vm a ins (t\<lparr>pc := pc t + 1\<rparr>)"
  by (auto simp: at_instruction_def svm_cycle_def split: option.splits)

lemma get_arg_none:
  "\<not> svm_is_arg_register ty \<Longrightarrow> ty \<noteq> ARG_IMM \<Longrightarrow> svm_get_arg_value c t ty = Some (0, t)"
  by (simp add: svm_get_arg_value_def)

lemma get_arg_imm:
  "unat (pc t) < length (code_buffer c) \<Longrightarrow>
   svm_get_arg_value c t ARG_IMM = Some (code_buffer c ! unat (pc t), t\<lparr>pc := pc t + 1\<rparr>)"
  by (simp add: svm_get_arg_value_def svm_is_arg_register_def nth_ub_def)

lemma get_arg_reg:
  "svm_is_arg_register ty \<Longrightarrow> length (registers t) = 16 \<Longrightarrow>
   svm_get_arg_value c t ty = Some (registers t ! (ty - 1), t)"
  by (auto simp: svm_get_arg_value_def svm_is_arg_register_def nth_ub_def svm_arg_to_reg_def
      R_MAX_def ARG_NONE_def ARG_IMM_def Let_def)

lemma get_arg_not_imm:
  "ty \<noteq> ARG_IMM \<Longrightarrow> length (registers t) = 16 \<Longrightarrow> \<exists>v. svm_get_arg_value c t ty = Some (v, t)"
  by (cases "svm_is_arg_register ty") (auto simp: get_arg_reg get_arg_none)

lemma get_arg_flags:
  "svm_get_arg_value c t ty = Some (v, t') \<Longrightarrow> flags t' = flags t"
  by (auto simp: svm_get_arg_value_def Let_def split: if_splits option.splits)

lemma check_condition_pc [simp]:
  "svm_check_condition (t\<lparr>pc := p\<rparr>) e = svm_check_condition t e"
  by (simp add: svm_check_condition_def split: option.splits svm_ext.splits)

section \<open>A false predicate\<close>

lemma alu_suppressed:
  assumes "\<not> svm_check_condition t (i_ext ins)" "length (registers t) = 16"
    "i_arg2 ins = ARG_IMM \<longrightarrow> unat (pc t) < length (code_buffer c)"
  shows "svm_alu f c ins t =
    Some (SVM_OK, t\<lparr>pc := pc t + (if i_arg2 ins = ARG_IMM then 1 else 0)\<rparr>)"
proof (cases "i_arg2 ins = ARG_IMM")
  case True
  with assms show ?thesis by (simp add: svm_alu_def get_arg_imm)
next
  case False
  with assms obtain v where "svm_get_arg_value c t (i_arg2 ins) = Some (v, t)"
    using get_arg_not_imm by blast
  with assms False show ?thesis by (simp add: svm_alu_def)
qed

lemma push_suppressed:
  assumes "\<not> svm_check_condition t (i_ext ins)"
    "i_arg1 ins = ARG_IMM \<longrightarrow> unat (pc t) < length (code_buffer c)"
  shows "svm_push c ins t =
    Some (SVM_OK, t\<lparr>pc := pc t + (if i_arg1 ins = ARG_IMM then 1 else 0)\<rparr>)"
  using assms by (simp add: svm_push_def get_arg_imm)

lemma pop_suppressed:
  "\<not> svm_check_condition t (i_ext ins) \<Longrightarrow> svm_pop ins t = Some (SVM_OK, t)"
  by (simp add: svm_pop_def)

lemma jmp_suppressed:
  assumes "\<not> svm_check_condition t (i_ext ins)" "length (registers t) = 16"
    "i_arg1 ins = ARG_IMM \<longrightarrow> unat (pc t) < length (code_buffer c)"
  shows "svm_jmp c ins t =
    Some (SVM_OK, t\<lparr>pc := pc t + (if i_arg1 ins = ARG_IMM then 1 else 0)\<rparr>)"
proof (cases "i_arg1 ins = ARG_IMM")
  case True
  with assms show ?thesis by (simp add: svm_jmp_def get_arg_imm)
next
  case False
  with assms obtain v where "svm_get_arg_value c t (i_arg1 ins) = Some (v, t)"
    using get_arg_not_imm by blast
  with assms False show ?thesis by (simp add: svm_jmp_def)
qed

lemma inv_suppressed:
  assumes "\<not> svm_check_condition t (i_ext ins)" "length (registers t) = 16"
    "i_arg1 ins = ARG_IMM \<longrightarrow> unat (pc t) < length (code_buffer c)"
  shows "svm_inv c ins t =
    Some (SVM_OK, t\<lparr>pc := pc t + (if i_arg1 ins = ARG_IMM then 1 else 0)\<rparr>)"
proof (cases "i_arg1 ins = ARG_IMM")
  case True
  with assms show ?thesis by (simp add: svm_inv_def get_arg_imm)
next
  case False
  with assms obtain v where "svm_get_arg_value c t (i_arg1 ins) = Some (v, t)"
    using get_arg_not_imm by blast
  with assms False show ?thesis by (simp add: svm_inv_def)
qed

text \<open>
  CLF reads the extension byte as the flag to clear: when the flag it names is false
  there is nothing to clear, and a byte that names no flag clears nothing.
\<close>

lemma clf_suppressed:
  "\<not> svm_check_condition t e \<Longrightarrow> svm_set_flag_by_ext t e False = t"
  by (cases "flags t")
    (auto simp: svm_check_condition_def svm_set_flag_by_ext_def
      split: option.splits svm_ext.splits)

text \<open>
  The opcodes that honour the suffix. When the predicate named by the extension byte is
  false, a cycle on NOP, MOV, PUSH, POP, ADD, SUB, MUL, DIV, AND, OR, XOR, SHL, SHR, CLF,
  JMP or INV returns \<open>SVM_OK\<close> and changes nothing but the \<open>pc\<close> of the current task,
  which moves past the instruction word and past the literal word of the operand the
  opcode fetches.
\<close>

lemma predicate_false_only_advances_pc:
  assumes at: "at_instruction vm a t ins"
    and opc: "svm_opcode_of_byte (i_op ins) = Some opc"
    and pr: "opc \<in> {OP_NOP, OP_MOV, OP_PUSH, OP_POP, OP_ADD, OP_SUB, OP_MUL, OP_DIV, OP_AND,
               OP_OR, OP_XOR, OP_SHL, OP_SHR, OP_CLF, OP_JMP, OP_INV}"
    and cond: "\<not> svm_check_condition t (i_ext ins)"
    and regs: "length (registers t) = 16"
    and imm: "fetched_arg opc ins = ARG_IMM \<longrightarrow> unat (pc t + 1) < length (code_buffer (code vm))"
  shows "svm_cycle h vm =
    Some (SVM_OK, store_task vm a
      (t\<lparr>pc := pc t + 1 + (if fetched_arg opc ins = ARG_IMM then 1 else 0)\<rparr>))"
proof -
  let ?t = "t\<lparr>pc := pc t + 1\<rparr>"
  have c: "\<not> svm_check_condition ?t (i_ext ins)" using cond by simp
  have r: "length (registers ?t) = 16" using regs by simp
  have sw: "svm_cycle h vm = svm_switch h vm a ins ?t" using at by (rule svm_cycle_at)
  have alu: "\<And>f. fetched_arg opc ins = i_arg2 ins \<Longrightarrow>
      on_task vm a (svm_alu f (code vm) ins ?t) =
      Some (SVM_OK, store_task vm a
        (t\<lparr>pc := pc t + 1 + (if fetched_arg opc ins = ARG_IMM then 1 else 0)\<rparr>))"
    using imm by (simp add: alu_suppressed [OF c r] on_task_def)
  from pr show ?thesis
    apply (elim insertE emptyE)
    subgoal using opc by (simp add: sw svm_switch_def fetched_arg_def ARG_NONE_def ARG_IMM_def)
    subgoal using opc alu by (simp add: sw svm_switch_def fetched_arg_def)
    subgoal using opc imm
      by (simp add: sw svm_switch_def fetched_arg_def push_suppressed [OF c] on_task_def)
    subgoal using opc
      by (simp add: sw svm_switch_def fetched_arg_def pop_suppressed [OF c] on_task_def
          ARG_NONE_def ARG_IMM_def)
    subgoal using opc alu by (simp add: sw svm_switch_def fetched_arg_def)
    subgoal using opc alu by (simp add: sw svm_switch_def fetched_arg_def)
    subgoal using opc alu by (simp add: sw svm_switch_def fetched_arg_def)
    subgoal using opc alu by (simp add: sw svm_switch_def fetched_arg_def)
    subgoal using opc alu by (simp add: sw svm_switch_def fetched_arg_def)
    subgoal using opc alu by (simp add: sw svm_switch_def fetched_arg_def)
    subgoal using opc alu by (simp add: sw svm_switch_def fetched_arg_def)
    subgoal using opc alu by (simp add: sw svm_switch_def fetched_arg_def)
    subgoal using opc alu by (simp add: sw svm_switch_def fetched_arg_def)
    subgoal using opc
      by (simp add: sw svm_switch_def fetched_arg_def clf_suppressed [OF c] ARG_NONE_def
          ARG_IMM_def)
    subgoal using opc imm
      by (simp add: sw svm_switch_def fetched_arg_def jmp_suppressed [OF c r] on_task_def)
    subgoal using opc imm
      by (simp add: sw svm_switch_def fetched_arg_def inv_suppressed [OF c r] on_task_def)
    done
qed

text \<open>
  An instance: \<open>mov.eq r0 99\<close> with EQ clear leaves \<open>r0\<close> alone and moves \<open>pc\<close> from 0 to 2.
\<close>

lemma mov_eq_suppressed_instance:
  "at_instruction (demo_vm [svm_pack_instruction 2 1 1 17, 99] (demo_task demo_regs)) 0
     (demo_task demo_regs) (svm_decode (svm_pack_instruction 2 1 1 17)) \<and>
   svm_opcode_of_byte (i_op (svm_decode (svm_pack_instruction 2 1 1 17))) = Some OP_MOV \<and>
   \<not> svm_check_condition (demo_task demo_regs) (i_ext (svm_decode (svm_pack_instruction 2 1 1 17))) \<and>
   length (registers (demo_task demo_regs)) = 16 \<and>
   svm_cycle demo_handler (demo_vm [svm_pack_instruction 2 1 1 17, 99] (demo_task demo_regs)) =
     Some (SVM_OK, store_task (demo_vm [svm_pack_instruction 2 1 1 17, 99] (demo_task demo_regs)) 0
       ((demo_task demo_regs)\<lparr>pc := 2\<rparr>))"
proof -
  let ?w = "svm_pack_instruction 2 1 1 17"
  let ?vm = "demo_vm [?w, 99] (demo_task demo_regs)"
  have h1: "at_instruction ?vm 0 (demo_task demo_regs) (svm_decode ?w)"
    by (simp add: at_instruction_def demo_defs nth_ub_def)
  have h2: "svm_opcode_of_byte (i_op (svm_decode ?w)) = Some OP_MOV"
    by (simp add: decode_defs svm_opcode_of_byte_def)
  have h3: "OP_MOV \<in> {OP_NOP, OP_MOV, OP_PUSH, OP_POP, OP_ADD, OP_SUB, OP_MUL, OP_DIV, OP_AND,
               OP_OR, OP_XOR, OP_SHL, OP_SHR, OP_CLF, OP_JMP, OP_INV}"
    by simp
  have h4: "\<not> svm_check_condition (demo_task demo_regs) (i_ext (svm_decode ?w))"
    by (simp add: decode_defs svm_check_condition_def svm_ext_of_byte_def demo_defs)
  have h5: "length (registers (demo_task demo_regs)) = 16"
    by (simp add: demo_defs)
  have h6: "fetched_arg OP_MOV (svm_decode ?w) = ARG_IMM \<longrightarrow>
      unat (pc (demo_task demo_regs) + 1) < length (code_buffer (code ?vm))"
    by (simp add: demo_defs)
  have f: "fetched_arg OP_MOV (svm_decode ?w) = ARG_IMM"
    by (simp add: decode_defs fetched_arg_def ARG_IMM_def)
  show ?thesis
    using predicate_false_only_advances_pc [OF h1 h2 h3 h4 h5 h6, of demo_handler] h1 h2 h4 h5 f
    by (simp add: demo_task_def)
qed

text \<open>
  Claim C1 fails on the code for END and SYS. svm.h documents every extension as
  ``executes instruction only if the flag is set'', and the sixteen opcodes above test
  it; the cases of END and SYS do not. With EQ clear, \<open>end.eq\<close> still clears the running
  flag, and \<open>sys.eq 42\<close> still calls the handler, which here writes \<open>r0\<close>.
\<close>

theorem end_sys_run_under_false_predicate:
  "\<not> svm_check_condition (demo_task demo_regs) 1 \<and>
   svm_cycle demo_handler (demo_vm [svm_pack_instruction 1 1 0 0] (demo_task demo_regs)) =
     Some (SVM_OK, store_task
       ((demo_vm [svm_pack_instruction 1 1 0 0] (demo_task demo_regs))\<lparr>running := False\<rparr>) 0
       ((demo_task demo_regs)\<lparr>pc := 1\<rparr>)) \<and>
   svm_cycle demo_handler (demo_vm [svm_pack_instruction 19 1 17 0, 42] (demo_task demo_regs)) =
     Some (SVM_OK, store_task (demo_vm [svm_pack_instruction 19 1 17 0, 42] (demo_task demo_regs)) 0
       ((demo_task demo_regs)\<lparr>pc := 2, registers := demo_regs[0 := 42]\<rparr>))"
  by (simp add: svm_check_condition_def svm_ext_of_byte_def demo_defs svm_cycle_def nth_ub_def
      decode_defs svm_switch_def svm_opcode_of_byte_def svm_get_arg_value_def arg_defs store_task_def)


text \<open>
  The literal of an IMM in the destination slot is not skipped either: the assembler
  accepts \<open>mov.eq 5 r0\<close>, MOV fetches \<open>arg2\<close> only, and with EQ clear the cycle leaves \<open>pc\<close>
  at the literal 5, which the next cycle decodes as the opcode ADD.
\<close>

lemma mov_destination_literal_not_skipped:
  "svm_cycle demo_handler (demo_vm [svm_pack_instruction 2 1 17 1, 5] (demo_task demo_regs)) =
     Some (SVM_OK, store_task (demo_vm [svm_pack_instruction 2 1 17 1, 5] (demo_task demo_regs)) 0
       ((demo_task demo_regs)\<lparr>pc := 1\<rparr>)) \<and>
   svm_opcode_of_byte (i_op (svm_decode 5)) = Some OP_ADD"
  by (simp add: svm_check_condition_def svm_ext_of_byte_def demo_defs svm_cycle_def nth_ub_def
      decode_defs svm_switch_def svm_opcode_of_byte_def svm_alu_def svm_get_arg_value_def
      arg_defs store_task_def on_task_def)

section \<open>CMP and operand fetch\<close>

lemma cmp_flags_eq:
  "svm_cmp_flags f x y =
     \<lparr>flags_eq = flags_eq f \<or> x = y, flags_ne = flags_ne f \<or> x \<noteq> y,
      flags_lt = flags_lt f \<or> sint x < sint y, flags_le = flags_le f \<or> sint x \<le> sint y,
      flags_gt = flags_gt f \<or> sint x > sint y, flags_ge = flags_ge f \<or> sint x \<ge> sint y,
      flags_nz = flags_nz f, flags_z = flags_z f\<rparr>"
  by (cases f) (auto simp: svm_cmp_flags_def Let_def)

text \<open>
  Claim C5. A cycle on CMP whose operands are fetched as \<open>x\<close> and \<open>y\<close> returns \<open>SVM_OK\<close>
  and leaves each of EQ, NE, LT, LE, GT, GE true if it was true before or if the signed
  comparison of \<open>x\<close> with \<open>y\<close> makes it true; no flag is cleared, NZ and Z are untouched,
  and the extension byte plays no part.
\<close>

theorem cmp_sets_flags_sticky:
  assumes "at_instruction vm a t ins"
    and "svm_opcode_of_byte (i_op ins) = Some OP_CMP"
    and "svm_get_arg_value (code vm) (t\<lparr>pc := pc t + 1\<rparr>) (i_arg1 ins) = Some (x, t1)"
    and "svm_get_arg_value (code vm) t1 (i_arg2 ins) = Some (y, t2)"
  shows "svm_cycle h vm =
    Some (SVM_OK, store_task vm a
      (t2\<lparr>flags :=
         \<lparr>flags_eq = flags_eq (flags t) \<or> x = y, flags_ne = flags_ne (flags t) \<or> x \<noteq> y,
          flags_lt = flags_lt (flags t) \<or> sint x < sint y,
          flags_le = flags_le (flags t) \<or> sint x \<le> sint y,
          flags_gt = flags_gt (flags t) \<or> sint x > sint y,
          flags_ge = flags_ge (flags t) \<or> sint x \<ge> sint y,
          flags_nz = flags_nz (flags t), flags_z = flags_z (flags t)\<rparr>\<rparr>))"
proof -
  have "flags t2 = flags t"
    using get_arg_flags [OF assms(3)] get_arg_flags [OF assms(4)] by simp
  then show ?thesis
    using assms by (simp add: svm_cycle_at svm_switch_def svm_cmp_def on_task_def cmp_flags_eq)
qed

text \<open>An instance: \<open>cmp r0 9\<close> with \<open>r0 = 7\<close> sets NE, LT and LE.\<close>

theorem cmp_sets_flags_sticky_witness:
  "at_instruction (demo_vm [svm_pack_instruction 14 0 1 17, 9] (demo_task demo_regs)) 0
     (demo_task demo_regs) (svm_decode (svm_pack_instruction 14 0 1 17)) \<and>
   svm_cycle demo_handler (demo_vm [svm_pack_instruction 14 0 1 17, 9] (demo_task demo_regs)) =
     Some (SVM_OK, store_task (demo_vm [svm_pack_instruction 14 0 1 17, 9] (demo_task demo_regs)) 0
       ((demo_task demo_regs)\<lparr>pc := 2,
          flags := demo_flags\<lparr>flags_ne := True, flags_lt := True, flags_le := True\<rparr>\<rparr>))"
proof -
  let ?w = "svm_pack_instruction 14 0 1 17"
  let ?t = "demo_task demo_regs"
  let ?vm = "demo_vm [?w, 9] ?t"
  have h1: "at_instruction ?vm 0 ?t (svm_decode ?w)"
    by (simp add: at_instruction_def demo_defs nth_ub_def)
  have h2: "svm_opcode_of_byte (i_op (svm_decode ?w)) = Some OP_CMP"
    by (simp add: decode_defs svm_opcode_of_byte_def)
  have h3: "svm_get_arg_value (code ?vm) (?t\<lparr>pc := pc ?t + 1\<rparr>) (i_arg1 (svm_decode ?w)) =
      Some (7, ?t\<lparr>pc := 1\<rparr>)"
    by (simp add: decode_defs svm_get_arg_value_def arg_defs nth_ub_def demo_defs)
  have h4: "svm_get_arg_value (code ?vm) (?t\<lparr>pc := 1\<rparr>) (i_arg2 (svm_decode ?w)) =
      Some (9, ?t\<lparr>pc := 2\<rparr>)"
    by (simp add: decode_defs svm_get_arg_value_def arg_defs nth_ub_def demo_defs)
  show ?thesis
    using cmp_sets_flags_sticky [OF h1 h2 h3 h4, of demo_handler] h1
    by (simp add: demo_task_def demo_flags_def)
qed

text \<open>
  Claim C10. \<open>svm_get_arg_value\<close> gives 0 and leaves \<open>pc\<close> (and the whole task) as it is for
  an argument type that is neither a register nor IMM; so a cycle on a CMP whose two
  argument types are NONE compares 0 with 0: it sets EQ, GE and LE and moves \<open>pc\<close> by one.
\<close>

theorem arg_none_value_zero:
  "(\<not> svm_is_arg_register ty \<and> ty \<noteq> ARG_IMM \<longrightarrow> svm_get_arg_value c t ty = Some (0, t)) \<and>
   (at_instruction vm a t ins \<and> svm_opcode_of_byte (i_op ins) = Some OP_CMP \<and>
    i_arg1 ins = ARG_NONE \<and> i_arg2 ins = ARG_NONE \<longrightarrow>
      svm_cycle h vm =
        Some (SVM_OK, store_task vm a
          (t\<lparr>pc := pc t + 1,
             flags := (flags t)\<lparr>flags_eq := True, flags_ge := True, flags_le := True\<rparr>\<rparr>)))"
  by (auto simp: svm_cycle_at svm_switch_def svm_cmp_def get_arg_none
      svm_is_arg_register_def ARG_NONE_def ARG_IMM_def svm_cmp_flags_def on_task_def)

text \<open>An instance: the argument byte 18, and the word \<open>cmp\<close> with no operands.\<close>

theorem arg_none_value_zero_witness:
  "(\<not> svm_is_arg_register 18 \<and> (18::nat) \<noteq> ARG_IMM) \<and>
   svm_get_arg_value (demo_code []) (demo_task demo_regs) 18 = Some (0, demo_task demo_regs) \<and>
   at_instruction (demo_vm [svm_pack_instruction 14 0 0 0] (demo_task demo_regs)) 0
     (demo_task demo_regs) (svm_decode (svm_pack_instruction 14 0 0 0)) \<and>
   svm_cycle demo_handler (demo_vm [svm_pack_instruction 14 0 0 0] (demo_task demo_regs)) =
     Some (SVM_OK, store_task (demo_vm [svm_pack_instruction 14 0 0 0] (demo_task demo_regs)) 0
       ((demo_task demo_regs)\<lparr>pc := 1,
          flags := demo_flags\<lparr>flags_eq := True, flags_ge := True, flags_le := True\<rparr>\<rparr>))"
proof -
  let ?w = "svm_pack_instruction 14 0 0 0"
  let ?t = "demo_task demo_regs"
  have h1: "\<not> svm_is_arg_register 18 \<and> (18::nat) \<noteq> ARG_IMM"
    by (simp add: arg_defs)
  have h2: "at_instruction (demo_vm [?w] ?t) 0 ?t (svm_decode ?w)"
    by (simp add: at_instruction_def demo_defs nth_ub_def)
  have h3: "svm_opcode_of_byte (i_op (svm_decode ?w)) = Some OP_CMP \<and>
      i_arg1 (svm_decode ?w) = ARG_NONE \<and> i_arg2 (svm_decode ?w) = ARG_NONE"
    by (simp add: decode_defs arg_defs svm_opcode_of_byte_def)
  show ?thesis
    using h1 h2 h3
      arg_none_value_zero [of 18 "demo_code []" ?t "demo_vm [?w] ?t" 0 "svm_decode ?w"
        demo_handler]
    by (simp add: demo_task_def)
qed

section \<open>Bytes outside the enumerations\<close>

text \<open>
  Claim C6, as amended. A cycle on a word whose opcode byte is 20 or more returns
  \<open>SVM_ERR_UNKNOWN_INSTRUCTION\<close>, with \<open>pc\<close> moved past the word. An extension byte of 9
  or more makes \<open>svm_check_condition\<close> false, not true, and \<open>svm_set_flag_by_ext\<close> change
  nothing: a MOV carrying such a byte fetches its operand and leaves the registers alone.
\<close>

theorem unknown_opcode_and_invalid_ext:
  "(at_instruction vm a t ins \<and> 20 \<le> i_op ins \<longrightarrow>
      svm_cycle h vm =
        Some (SVM_ERR_UNKNOWN_INSTRUCTION, store_task vm a (t\<lparr>pc := pc t + 1\<rparr>))) \<and>
   (9 \<le> e \<longrightarrow> \<not> svm_check_condition t e \<and> svm_set_flag_by_ext t e v = t) \<and>
   (at_instruction vm a t ins \<and> 9 \<le> i_ext ins \<and>
    svm_opcode_of_byte (i_op ins) = Some OP_MOV \<and>
    svm_get_arg_value (code vm) (t\<lparr>pc := pc t + 1\<rparr>) (i_arg2 ins) = Some (x, t1) \<longrightarrow>
      svm_cycle h vm = Some (SVM_OK, store_task vm a t1) \<and> registers t1 = registers t)"
  by (auto simp: svm_cycle_at svm_switch_def svm_opcode_of_byte_def svm_check_condition_def
      svm_ext_of_byte_def svm_set_flag_by_ext_def svm_alu_def on_task_def
      svm_get_arg_value_def Let_def split: if_splits option.splits)

text \<open>An instance: the opcode byte 200, and \<open>mov r0 5\<close> carrying the extension byte 9.\<close>

theorem unknown_opcode_and_invalid_ext_witness:
  "at_instruction (demo_vm [svm_pack_instruction 200 0 0 0] (demo_task demo_regs)) 0
     (demo_task demo_regs) (svm_decode (svm_pack_instruction 200 0 0 0)) \<and>
   svm_cycle demo_handler (demo_vm [svm_pack_instruction 200 0 0 0] (demo_task demo_regs)) =
     Some (SVM_ERR_UNKNOWN_INSTRUCTION,
       store_task (demo_vm [svm_pack_instruction 200 0 0 0] (demo_task demo_regs)) 0
         ((demo_task demo_regs)\<lparr>pc := 1\<rparr>)) \<and>
   \<not> svm_check_condition (demo_task demo_regs) 9 \<and>
   at_instruction (demo_vm [svm_pack_instruction 2 9 1 17, 5] (demo_task demo_regs)) 0
     (demo_task demo_regs) (svm_decode (svm_pack_instruction 2 9 1 17)) \<and>
   svm_cycle demo_handler (demo_vm [svm_pack_instruction 2 9 1 17, 5] (demo_task demo_regs)) =
     Some (SVM_OK, store_task (demo_vm [svm_pack_instruction 2 9 1 17, 5] (demo_task demo_regs)) 0
       ((demo_task demo_regs)\<lparr>pc := 2\<rparr>))"
proof -
  let ?u = "svm_pack_instruction 200 0 0 0"
  let ?w = "svm_pack_instruction 2 9 1 17"
  let ?t = "demo_task demo_regs"
  have h1: "at_instruction (demo_vm [?u] ?t) 0 ?t (svm_decode ?u) \<and> 20 \<le> i_op (svm_decode ?u)"
    by (simp add: at_instruction_def demo_defs nth_ub_def decode_defs)
  have h2: "at_instruction (demo_vm [?w, 5] ?t) 0 ?t (svm_decode ?w) \<and>
      9 \<le> i_ext (svm_decode ?w) \<and> svm_opcode_of_byte (i_op (svm_decode ?w)) = Some OP_MOV \<and>
      svm_get_arg_value (code (demo_vm [?w, 5] ?t)) (?t\<lparr>pc := pc ?t + 1\<rparr>)
        (i_arg2 (svm_decode ?w)) = Some (5, ?t\<lparr>pc := 2\<rparr>)"
    by (simp add: at_instruction_def demo_defs nth_ub_def decode_defs svm_opcode_of_byte_def
        svm_get_arg_value_def arg_defs)
  have a: "svm_cycle demo_handler (demo_vm [?u] ?t) =
      Some (SVM_ERR_UNKNOWN_INSTRUCTION, store_task (demo_vm [?u] ?t) 0 (?t\<lparr>pc := pc ?t + 1\<rparr>))"
    using h1 unknown_opcode_and_invalid_ext
      [of "demo_vm [?u] ?t" 0 ?t "svm_decode ?u" demo_handler 9 False] by blast
  have b: "\<not> svm_check_condition ?t 9"
    using unknown_opcode_and_invalid_ext
      [of "demo_vm [?u] ?t" 0 ?t "svm_decode ?u" demo_handler 9 False] by simp
  have c: "svm_cycle demo_handler (demo_vm [?w, 5] ?t) =
      Some (SVM_OK, store_task (demo_vm [?w, 5] ?t) 0 (?t\<lparr>pc := 2\<rparr>))"
    using h2 unknown_opcode_and_invalid_ext
      [of "demo_vm [?w, 5] ?t" 0 ?t "svm_decode ?w" demo_handler 9 False 5 "?t\<lparr>pc := 2\<rparr>"]
    by blast
  show ?thesis
    using h1 h2 a b c by (simp add: demo_task_def)
qed

text \<open>
  Claim C6 as stated fails: with the extension byte 9 the predicate is false and
  \<open>mov r0 5\<close> does not write \<open>r0\<close>, which keeps its value 7.
\<close>

theorem invalid_ext_not_none_counterexample:
  "svm_ext_of_byte 9 = None \<and> \<not> svm_check_condition (demo_task demo_regs) 9 \<and>
   svm_check_condition (demo_task demo_regs) (byte_of_ext EXT_NONE) \<and>
   svm_cycle demo_handler (demo_vm [svm_pack_instruction 2 9 1 17, 5] (demo_task demo_regs)) =
     Some (SVM_OK, store_task (demo_vm [svm_pack_instruction 2 9 1 17, 5] (demo_task demo_regs)) 0
       ((demo_task demo_regs)\<lparr>pc := 2\<rparr>)) \<and>
   registers (demo_task demo_regs) ! 0 = 7"
  by (simp add: svm_check_condition_def svm_ext_of_byte_def byte_of_ext_def demo_defs
      svm_cycle_def nth_ub_def decode_defs svm_switch_def svm_opcode_of_byte_def svm_alu_def
      svm_get_arg_value_def arg_defs store_task_def on_task_def)

section \<open>Error returns and the single-register POP\<close>

lemmas cycle_eval_defs = svm_cycle_def nth_ub_def upd_ub_def decode_defs svm_switch_def
  svm_opcode_of_byte_def svm_check_condition_def svm_ext_of_byte_def svm_get_arg_value_def
  arg_defs store_task_def on_task_def word_le_nat_alt word_less_nat_alt

text \<open>
  Every error return of the cycle but one leaves the task as it was up to \<open>pc\<close>: the
  checks come before the stores. The exception is the target check of INV.
\<close>

lemma pc_only_refl [simp]: "pc_only t t" "pc_only t (t\<lparr>pc := p\<rparr>)"
  by (simp_all add: pc_only_def)

lemma pc_only_trans: "pc_only t t1 \<Longrightarrow> pc_only t1 t2 \<Longrightarrow> pc_only t t2"
  unfolding pc_only_def by (metis svm_task.update_convs(3) svm_task.surjective svm_task.select_convs(3))

lemma get_arg_pc_only: "svm_get_arg_value c t ty = Some (v, t') \<Longrightarrow> pc_only t t'"
  by (auto simp: svm_get_arg_value_def Let_def split: if_splits option.splits)

lemma alu_error: "svm_alu f c ins t = Some (e, t') \<Longrightarrow> e \<noteq> SVM_OK \<Longrightarrow> pc_only t t'"
  by (auto simp: svm_alu_def Let_def split: if_splits option.splits dest: get_arg_pc_only)

lemma push_error: "svm_push c ins t = Some (e, t') \<Longrightarrow> e \<noteq> SVM_OK \<Longrightarrow> pc_only t t'"
  by (auto simp: svm_push_def Let_def split: if_splits option.splits dest: get_arg_pc_only)

lemma pop_error: "svm_pop ins t = Some (e, t') \<Longrightarrow> e \<noteq> SVM_OK \<Longrightarrow> pc_only t t'"
  by (auto simp: svm_pop_def Let_def split: if_splits option.splits)

lemma cmp_error: "svm_cmp c ins t = Some (e, t') \<Longrightarrow> e \<noteq> SVM_OK \<Longrightarrow> pc_only t t'"
  by (auto simp: svm_cmp_def split: option.splits)

lemma jmp_error: "svm_jmp c ins t = Some (e, t') \<Longrightarrow> e \<noteq> SVM_OK \<Longrightarrow> pc_only t t'"
  by (auto simp: svm_jmp_def split: if_splits option.splits dest: get_arg_pc_only)

lemma inv_error:
  "svm_inv c ins t = Some (e, t') \<Longrightarrow> e \<noteq> SVM_OK \<Longrightarrow> e \<noteq> SVM_ERR_JMP_OVERFLOW \<Longrightarrow> pc_only t t'"
  by (auto simp: svm_inv_def Let_def split: if_splits option.splits dest: get_arg_pc_only)

lemma ret_error: "svm_ret t = Some (e, t') \<Longrightarrow> e \<noteq> SVM_OK \<Longrightarrow> pc_only t t'"
  by (auto simp: svm_ret_def split: if_splits option.splits)

lemma switch_error:
  assumes "svm_switch h vm a ins t = Some (e, vm')" "e \<noteq> SVM_OK"
    "\<not> (svm_opcode_of_byte (i_op ins) = Some OP_INV \<and> e = SVM_ERR_JMP_OVERFLOW)"
  shows "\<exists>t'. vm' = store_task vm a t' \<and> pc_only t t'"
proof (cases "svm_opcode_of_byte (i_op ins)")
  case None
  with assms show ?thesis by (auto simp: svm_switch_def)
next
  case (Some opc)
  with assms show ?thesis
    by (cases opc)
      (auto simp: svm_switch_def on_task_def split: option.splits prod.splits
        dest: alu_error push_error pop_error cmp_error jmp_error inv_error ret_error)
qed

lemma structural_error_keeps_task:
  assumes "at_instruction vm a t ins" "svm_cycle h vm = Some (e, vm')" "e \<noteq> SVM_OK"
    "\<not> (svm_opcode_of_byte (i_op ins) = Some OP_INV \<and> e = SVM_ERR_JMP_OVERFLOW)"
  shows "\<exists>p. vm' = store_task vm a (t\<lparr>pc := p\<rparr>)"
proof -
  from assms obtain t' where t': "vm' = store_task vm a t'" "pc_only (t\<lparr>pc := pc t + 1\<rparr>) t'"
    using switch_error [of h vm a ins "t\<lparr>pc := pc t + 1\<rparr>" e vm'] by (auto simp: svm_cycle_at)
  then have "t' = t\<lparr>pc := pc t'\<rparr>" by (simp add: pc_only_def)
  with t'(1) show ?thesis by metis
qed

text \<open>
  Claim C2 fails on INV. \<open>inv 100\<close> in a code image of two words passes the call-stack
  check, stores the return address and increments \<open>rpc\<close>, and only then finds the target
  out of bounds: \<open>SVM_ERR_JMP_OVERFLOW\<close> is returned with \<open>rpc\<close> changed from 0 to 1 and
  the slot 0 of the call stack overwritten with 2.
\<close>

theorem inv_jump_overflow_mutates_call_stack:
  "svm_cycle demo_handler (demo_vm [svm_pack_instruction 17 0 17 0, 100] (demo_task demo_regs)) =
     Some (SVM_ERR_JMP_OVERFLOW,
       store_task (demo_vm [svm_pack_instruction 17 0 17 0, 100] (demo_task demo_regs)) 0
         ((demo_task demo_regs)\<lparr>pc := 2, rpc := 1,
            call_stack := \<lparr>buffer = [2, 0, 0, 0], bsize = 4\<rparr>\<rparr>)) \<and>
   rpc (demo_task demo_regs) = 0 \<and>
   call_stack (demo_task demo_regs) = \<lparr>buffer = [0, 0, 0, 0], bsize = 4\<rparr>"
  by (simp add: cycle_eval_defs demo_defs svm_inv_def)

text \<open>
  The single-register POP in general: the register receives the word at index \<open>sp\<close>, one
  above the last word pushed, and the cycle leaves defined C when \<open>sp\<close> is the end of the
  buffer.
\<close>

lemma pop_single_reads_at_sp:
  assumes "svm_check_condition t (i_ext ins)" "svm_is_arg_register (i_arg1 ins)"
    "i_arg2 ins = ARG_NONE" "1 \<le> sp t" "length (registers t) = 16"
  shows "svm_pop ins t =
    (if unat (sp t) < length (buffer (stack t))
     then Some (SVM_OK, t\<lparr>sp := sp t - 1,
       registers := (registers t)[i_arg1 ins - 1 := buffer (stack t) ! unat (sp t)]\<rparr>)
     else None)"
  using assms
  by (auto simp: svm_pop_def nth_ub_def upd_ub_def arg_defs Let_def word_le_nat_alt
      word_less_nat_alt)

text \<open>
  Claim C4 fails on the single-register POP, which reads \<open>stack.buffer[sp]\<close> and then
  decrements \<open>sp\<close>. After \<open>push r0\<close> with \<open>r0 = 7\<close> the value 7 is in slot 0 and \<open>sp\<close> is
  1; \<open>pop r0\<close> loads slot 1, which holds 0, so \<open>r0\<close> becomes 0.
\<close>

theorem pop_single_reads_above_top:
  "svm_cycle demo_handler
     (demo_vm [svm_pack_instruction 3 0 1 0, svm_pack_instruction 4 0 1 0] (demo_task demo_regs)) =
     Some (SVM_OK,
       demo_vm [svm_pack_instruction 3 0 1 0, svm_pack_instruction 4 0 1 0]
         ((demo_task demo_regs)\<lparr>pc := 1, sp := 1,
            stack := \<lparr>buffer = [7, 0, 0, 0, 0, 0, 0, 0], bsize = 8\<rparr>\<rparr>)) \<and>
   svm_cycle demo_handler
     (demo_vm [svm_pack_instruction 3 0 1 0, svm_pack_instruction 4 0 1 0]
         ((demo_task demo_regs)\<lparr>pc := 1, sp := 1,
            stack := \<lparr>buffer = [7, 0, 0, 0, 0, 0, 0, 0], bsize = 8\<rparr>\<rparr>)) =
     Some (SVM_OK,
       demo_vm [svm_pack_instruction 3 0 1 0, svm_pack_instruction 4 0 1 0]
         ((demo_task demo_regs)\<lparr>pc := 2, sp := 0, registers := demo_regs[0 := 0],
            stack := \<lparr>buffer = [7, 0, 0, 0, 0, 0, 0, 0], bsize = 8\<rparr>\<rparr>)) \<and>
   demo_regs ! 0 = 7"
  by (simp add: cycle_eval_defs demo_defs svm_push_def svm_pop_def push_value_def)


section \<open>Numeric literals\<close>

lemmas to_int32_defs = svm_to_int32_def c_mul_def c_add_def to_i32_def in_i32_def c_isupper_def

text \<open>
  Claim C8 fails on the code. The digit test is \<open>str[index] < '9'\<close>, so a literal with the
  digit 9 is rejected; the letters \<open>a .. f\<close> and \<open>A .. F\<close> are given the values 0 .. 5, not
  10 .. 15; and no branch compares the digit with the base, so \<open>1a\<close> is accepted in base
  10 and \<open>0b12\<close> in base 2.
\<close>

theorem svm_to_int32_rejects_nine:
  "svm_to_int32 ''9'' = Some (False, 0) \<and>
   svm_to_int32 ''19'' = Some (False, 1) \<and>
   svm_to_int32 ''0xa'' = Some (True, 0) \<and> literal_value 16 ''a'' = 10 \<and>
   svm_to_int32 ''0x1F'' = Some (True, 21) \<and> literal_value 16 ''1F'' = 31 \<and>
   svm_to_int32 ''1a'' = Some (True, 10) \<and>
   svm_to_int32 ''0b12'' = Some (True, 4)"
  by (simp add: to_int32_defs literal_value_def digit_value_def)

section \<open>Tokenizer\<close>

text \<open>
  The condition of the comment loop, \<open>c != '\n' || c != '\0'\<close>, holds for every character,
  so the loop is left only by reading outside the buffer.
\<close>

lemma skip_comment_never_returns: "skip_comment buf p = None"
proof (induction buf p rule: skip_comment.induct)
  case (1 buf p)
  show ?case
    apply (subst skip_comment.simps)
    using 1 by (auto split: option.splits simp: NL_def NUL_def)
qed

lemma next_token_at_comment:
  assumes "src < src_end" "skip_blanks buf src = Some p" "nth_ub buf p = Some (CHR ''#'')"
  shows "svm_asm_next_token buf src src_end = None"
  using assms by (simp add: svm_asm_next_token_def skip_comment_never_returns)

text \<open>
  Claim C9 fails on the code. On the buffer \<open># c\<close>, newline, \<open>end\<close>, NUL the first call
  of \<open>svm_asm_next_token\<close> meets the comment and runs past the end of the buffer: it
  neither stops at the newline nor returns \<open>end\<close>. Without a comment the same function
  returns the token \<open>end\<close> and leaves \<open>*source\<close> behind the separator.
\<close>

theorem comment_runs_off_the_buffer:
  "svm_asm_next_token demo_source 0 7 = None \<and>
   svm_asm_next_token (''end x'' @ [NUL]) 0 5 = Some (Some 0, ''end'' @ [NUL] @ ''x'' @ [NUL], 4) \<and>
   token_text (''end'' @ [NUL] @ ''x'' @ [NUL]) 0 = ''end''"
  by (simp add: svm_asm_next_token_def demo_source_def skip_comment_never_returns nth_ub_def
      upd_ub_def NL_def NUL_def skip_blanks.simps scan_token.simps token_text_def)

section \<open>Task removal\<close>

text \<open>
  Removing the head works; for any other task that does not point to itself, in a list
  that ends, the loop runs to the end and nothing is removed.
\<close>

lemma remove_loop_runs_to_end:
  assumes "chain_ends n hp p" "hp task = Some tk" "task_next tk \<noteq> Some task"
  shows "svm_task_remove_loop hp task p = Some None"
  using assms
proof (induction n arbitrary: p)
  case 0
  then show ?case by (simp add: svm_task_remove_loop.simps)
next
  case (Suc n)
  show ?case
  proof (cases p)
    case None
    then show ?thesis by (simp add: svm_task_remove_loop.simps)
  next
    case (Some b)
    with Suc.prems obtain tb where tb: "hp b = Some tb" "chain_ends n hp (task_next tb)"
      by (auto split: option.splits)
    have "svm_task_remove_loop hp task (task_next tb) = Some None"
      using tb Suc.prems by (intro Suc.IH)
    then show ?thesis
      using Some tb Suc.prems by (subst svm_task_remove_loop.simps) simp
  qed
qed

lemma remove_non_head_not_found:
  assumes "head vm = Some hd_addr" "hd_addr \<noteq> task" "heap vm hd_addr = Some hd_task"
    "chain_ends n (heap vm) (task_next hd_task)"
    "heap vm task = Some tk" "task_next tk \<noteq> Some task"
  shows "svm_task_remove vm (Some task) = Some (SVM_ERR_TASK_NOT_FOUND, vm)"
  using assms remove_loop_runs_to_end [OF assms(4) assms(5) assms(6)]
  by (simp add: svm_task_remove_def)

lemma remove_head_ok:
  assumes "head vm = Some task" "heap vm task = Some tk"
  shows "svm_task_remove vm (Some task) =
    Some (SVM_OK, vm\<lparr>head := task_next tk, heap := (heap vm)(task := Some (svm_task_deinit tk))\<rparr>)"
  using assms by (simp add: svm_task_remove_def)

text \<open>
  Claim C7 fails on the code. The loop of \<open>svm_task_remove\<close> tests \<open>task->next == task\<close>,
  which does not depend on \<open>tmp\<close>: for a task that is not the head and does not point to
  itself the loop runs to the end of the list and the function returns
  \<open>SVM_ERR_TASK_NOT_FOUND\<close>, the task still linked. Here the list is 1, 2, the current task
  is 1 and task 2 is to be removed.
\<close>

theorem remove_second_task_not_found:
  "task_list 5 (heap demo_list_vm) (head demo_list_vm) = [1, 2] \<and>
   current demo_list_vm = Some 1 \<and>
   svm_task_remove demo_list_vm (Some 2) = Some (SVM_ERR_TASK_NOT_FOUND, demo_list_vm)"
  by (simp add: demo_list_vm_def svm_task_remove_def svm_task_remove_loop.simps demo_task_def
      eval_nat_numeral)

section \<open>PUSH and POP of a register range\<close>

lemma pushed_pc: "pushed (t\<lparr>pc := p\<rparr>) vs = (pushed t vs)\<lparr>pc := p\<rparr>"
  by (simp add: pushed_def)

lemma pushed_Nil: "pushed t [] = t"
  by (simp add: pushed_def)

lemma unat_sp_add:
  "unat (s :: u32) + n < 2 ^ 32 \<Longrightarrow> unat (s + word_of_nat n) = unat s + n"
  by (simp add: unat_word_ariths unat_of_nat)

lemma push_value_pushed:
  "unat (sp t) < length (buffer (stack t)) \<Longrightarrow> push_value t v = Some (pushed t [v])"
  by (simp add: push_value_def upd_ub_def pushed_def upd_conv_take_nth_drop)

lemma pushed_pushed:
  assumes "unat (sp t) + length xs < 2 ^ 32" "unat (sp t) + length xs \<le> length (buffer (stack t))"
  shows "pushed (pushed t xs) ys = pushed t (xs @ ys)"
proof (cases xs)
  case Nil
  then show ?thesis by (simp add: pushed_def)
next
  case (Cons x xs')
  with assms have "unat (sp t) < length (buffer (stack t))" by simp
  with assms show ?thesis
    by (auto simp: pushed_def unat_sp_add min_def ac_simps)
qed

lemma push_range_pushed:
  assumes "r + k = hi + 1" "hi < length (registers t)"
    "unat (sp t) + k \<le> length (buffer (stack t))" "unat (sp t) + k < 2 ^ 32"
  shows "push_range (int r) (int hi) t = Some (pushed t (take k (drop r (registers t))))"
  using assms
proof (induction k arbitrary: r t)
  case 0
  then show ?case by (simp add: push_range.simps pushed_Nil)
next
  case (Suc k)
  let ?v = "registers t ! r"
  have r: "r \<le> hi" "r < length (registers t)" using Suc.prems by auto
  have pv: "push_value t ?v = Some (pushed t [?v])"
    using Suc.prems by (simp add: push_value_pushed)
  have sp': "unat (sp (pushed t [?v])) = unat (sp t) + 1"
    using Suc.prems by (simp add: pushed_def unat_sp_add [of _ 1, simplified])
  have len': "length (buffer (stack (pushed t [?v]))) = length (buffer (stack t))"
    using Suc.prems by (simp add: pushed_def)
  have regs': "registers (pushed t [?v]) = registers t"
    by (simp add: pushed_def)
  have ih: "push_range (int (Suc r)) (int hi) (pushed t [?v]) =
      Some (pushed (pushed t [?v]) (take k (drop (Suc r) (registers t))))"
    using Suc.IH [of "Suc r" "pushed t [?v]"] Suc.prems sp' len' regs' by simp
  have app: "pushed (pushed t [?v]) (take k (drop (Suc r) (registers t))) =
      pushed t (take (Suc k) (drop r (registers t)))"
    using Suc.prems r
    by (subst pushed_pushed) (simp_all add: take_Suc_conv_app_nth Cons_nth_drop_Suc [symmetric])
  have step: "push_range (int r) (int hi) t = push_range (int (Suc r)) (int hi) (pushed t [?v])"
    using r pv by (subst push_range.simps) (simp add: nth_ub_int_def nth_ub_def add.commute)
  show ?case by (simp only: step ih app)
qed


lemma popped_0: "lo \<le> length (registers t) \<Longrightarrow> popped t lo 0 = t"
  by (simp add: popped_def)

lemma pop_range_popped:
  assumes "lo + n \<le> length (registers t)" "n \<le> unat (sp t)"
    "unat (sp t) \<le> length (buffer (stack t))"
  shows "pop_range (int lo + int n - 1) (int lo) t = Some (popped t lo n)"
  using assms
proof (induction n arbitrary: t)
  case 0
  then show ?case by (simp add: pop_range.simps popped_0)
next
  case (Suc n)
  let ?s = "unat (sp t)"
  let ?b = "buffer (stack t)"
  let ?v = "?b ! (?s - 1)"
  let ?t' = "t\<lparr>sp := sp t - 1, registers := (registers t)[lo + n := ?v]\<rparr>"
  have nz: "sp t \<noteq> 0" using Suc.prems by (auto simp: unat_eq_zero [symmetric] simp del: unat_eq_zero)
  have s1: "unat (sp t - 1) = ?s - 1" using nz by (rule unat_minus_one)
  have pv: "pop_value t (int (lo + n)) = Some ?t'"
    using Suc.prems s1 by (simp add: pop_value_def nth_ub_def upd_ub_int_def upd_ub_def nat_int_add)
  have ih: "pop_range (int lo + int n - 1) (int lo) ?t' = Some (popped ?t' lo n)"
    using Suc.prems s1 by (intro Suc.IH) simp_all
  have tk: "take (Suc n) (drop (?s - Suc n) ?b) = take n (drop (?s - Suc n) ?b) @ [?v]"
    using Suc.prems by (simp add: take_Suc_conv_app_nth)
  have "popped ?t' lo n = popped t lo (Suc n)"
    using Suc.prems s1 tk
    by (simp add: popped_def drop_update_cancel upd_conv_take_nth_drop min_def
        diff_diff_eq Cons_nth_drop_Suc)
  moreover have "pop_range (int lo + int (Suc n) - 1) (int lo) t =
      pop_range (int lo + int n - 1) (int lo) ?t'"
    using pv by (subst pop_range.simps) (simp add: algebra_simps)
  ultimately show ?case using ih by simp
qed


lemma check_condition_flags:
  "flags t' = flags t \<Longrightarrow> svm_check_condition t' e = svm_check_condition t e"
  by (simp add: svm_check_condition_def split: option.splits svm_ext.splits)

lemma popped_pushed:
  assumes "length vs = n" "lo + n \<le> length rs'"
    "unat (sp t) + n \<le> length (buffer (stack t))" "unat (sp t) + n < 2 ^ 32"
  shows "popped ((pushed t vs)\<lparr>pc := p, registers := rs'\<rparr>) lo n =
    t\<lparr>pc := p, stack := stack (pushed t vs),
      registers := take lo rs' @ vs @ drop (lo + n) rs'\<rparr>"
proof -
  have sp: "unat (sp t + word_of_nat n) = unat (sp t) + n"
    using assms by (intro unat_sp_add) simp
  show ?thesis
    using assms(1,3) sp by (simp add: popped_def pushed_def min_def)
qed

lemma pushed_ascending:
  assumes "unat (sp t) \<le> length (buffer (stack t))" "k < length vs"
  shows "buffer (stack (pushed t vs)) ! (unat (sp t) + k) = vs ! k"
  using assms by (simp add: pushed_def nth_append)

text \<open>
  The two cycles in full. The POP cycle is run on the state the PUSH cycle left, with any
  register file \<open>rs'\<close> in place of the registers: the registers \<open>lo .. hi\<close> receive the
  pushed values, the others keep theirs.
\<close>

lemma push_pop_range_cycles:
  assumes at: "at_instruction vm a t ins"
    and op1: "svm_opcode_of_byte (i_op ins) = Some OP_PUSH"
    and args1: "i_arg1 ins = lo + 1" "i_arg2 ins = hi + 1"
    and c1: "svm_check_condition t (i_ext ins)"
    and nxt: "pc t + 1 < code_size (code vm)"
      "map_option svm_decode (nth_ub (code_buffer (code vm)) (unat (pc t + 1))) = Some ins2"
    and op2: "svm_opcode_of_byte (i_op ins2) = Some OP_POP"
    and args2: "i_arg1 ins2 = lo + 1" "i_arg2 ins2 = hi + 1"
    and c2: "svm_check_condition t (i_ext ins2)"
    and lohi: "lo < hi" "hi < 16"
    and regs: "length (registers t) = 16" "length rs' = 16"
    and room: "unat (sp t) + (hi - lo) < unat (bsize (stack t))"
    and alloc: "unat (sp t) + (hi - lo) < length (buffer (stack t))"
  shows "svm_cycle h vm =
      Some (SVM_OK, store_task vm a
        ((pushed t (take (hi + 1 - lo) (drop lo (registers t))))\<lparr>pc := pc t + 1\<rparr>)) \<and>
    svm_cycle h (store_task vm a
        ((pushed t (take (hi + 1 - lo) (drop lo (registers t))))
           \<lparr>pc := pc t + 1, registers := rs'\<rparr>)) =
      Some (SVM_OK, store_task vm a
        (t\<lparr>pc := pc t + 2,
           stack := stack (pushed t (take (hi + 1 - lo) (drop lo (registers t)))),
           registers := take lo rs' @ take (hi + 1 - lo) (drop lo (registers t)) @
             drop (hi + 1) rs'\<rparr>))"
proof -
  define n where "n = hi + 1 - lo"
  define vs where "vs = take n (drop lo (registers t))"
  define t1 where "t1 = (pushed t vs)\<lparr>pc := pc t + 1\<rparr>"
  define u1 where "u1 = t1\<lparr>registers := rs'\<rparr>"
  define u2 where "u2 = (pushed t vs)\<lparr>pc := pc t + 2, registers := rs'\<rparr>"
  let ?t0 = "t\<lparr>pc := pc t + 1\<rparr>"
  let ?res = "t\<lparr>pc := pc t + 2, stack := stack (pushed t vs),
    registers := take lo rs' @ vs @ drop (lo + n) rs'\<rparr>"
  have n: "lo + n = hi + 1" "int hi = int lo + int n - 1" "hi - lo < n"
    using lohi by (simp_all add: n_def)
  have lvs: "length vs = n" using n lohi regs by (simp add: vs_def)
  have "unat (bsize (stack t)) < 2 ^ LENGTH(32)"
    by (rule unsigned_less)
  then have b: "unat (bsize (stack t)) < 2 ^ 32" by simp
  have nowrap: "unat (sp t) + n < 2 ^ 32"
    using room n(1) lohi(1) b by linarith
  have fits: "unat (sp t) + n \<le> length (buffer (stack t))"
    using alloc n(1) lohi(1) by linarith
  have pr: "push_range (int lo) (int hi) ?t0 = Some t1"
    using push_range_pushed [of lo n hi ?t0] n lohi regs fits nowrap
    by (simp add: pushed_pc t1_def vs_def)
  have a1: "i_arg1 ins \<noteq> ARG_IMM" "i_arg2 ins \<noteq> ARG_NONE"
    "svm_arg_to_reg (i_arg1 ins) = lo" "svm_arg_to_reg (i_arg2 ins) = hi"
    using args1 lohi by (simp_all add: arg_defs)
  have ov: "\<not> uint (sp t) + int hi - int lo \<ge> uint (bsize (stack t))"
    using room lohi(1) uint_nat [of "sp t"] uint_nat [of "bsize (stack t)"] by linarith
  have push: "svm_push (code vm) ins ?t0 = Some (SVM_OK, t1)"
    unfolding svm_push_def using a1 c1 ov lohi(1) by (simp add: pr)
  have first: "svm_cycle h vm = Some (SVM_OK, store_task vm a t1)"
    using at op1 push by (simp add: svm_cycle_at svm_switch_def on_task_def)
  have at1: "at_instruction (store_task vm a u1) a u1 ins2"
    using at nxt by (simp add: at_instruction_def store_task_def pushed_def t1_def u1_def)
  have u12: "u1\<lparr>pc := pc u1 + 1\<rparr> = u2"
    by (simp add: u1_def t1_def u2_def pushed_def)
  have sp2: "unat (sp u2) = unat (sp t) + n"
    using nowrap by (simp add: u2_def pushed_def unat_sp_add lvs)
  have fl: "flags u2 = flags t" by (simp add: u2_def pushed_def)
  have c2': "svm_check_condition u2 (i_ext ins2)"
    using c2 check_condition_flags [OF fl] by simp
  have lens: "lo + n \<le> length (registers u2)" "n \<le> unat (sp u2)"
    "unat (sp u2) \<le> length (buffer (stack u2))"
    using n lohi regs fits sp2 by (simp_all add: u2_def pushed_def lvs)
  have po: "pop_range (int hi) (int lo) u2 = Some (popped u2 lo n)"
    using pop_range_popped [OF lens] n(2) by simp
  have rt: "popped u2 lo n = ?res"
    unfolding u2_def using n lohi regs fits nowrap lvs by (intro popped_pushed) simp_all
  have a2: "svm_is_arg_register (i_arg1 ins2)" "svm_is_arg_register (i_arg2 ins2)"
    "i_arg2 ins2 \<noteq> ARG_NONE"
    "svm_arg_to_reg (i_arg1 ins2) = lo" "svm_arg_to_reg (i_arg2 ins2) = hi"
    using args2 lohi by (simp_all add: arg_defs)
  have un: "\<not> uint (sp u2) < int hi - int lo"
    using sp2 n(3) lohi(1) uint_nat [of "sp u2"] by linarith
  have pop: "svm_pop ins2 u2 = Some (SVM_OK, ?res)"
    unfolding svm_pop_def using a2 c2' un lohi(1) by (simp add: po rt)
  have second: "svm_cycle h (store_task vm a u1) = Some (SVM_OK, store_task vm a ?res)"
    unfolding svm_cycle_at [OF at1] u12 using op2 pop
    by (simp add: svm_switch_def on_task_def store_task_def)
  have idx: "lo + n = hi + 1" by (rule n(1))
  show ?thesis
    using first second unfolding u1_def t1_def vs_def idx unfolding n_def by simp
qed


lemma range_update_nth:
  assumes "length rs' = 16" "length vs = hi + 1 - lo" "lo < hi" "hi < 16"
  shows "lo \<le> i \<Longrightarrow> i \<le> hi \<Longrightarrow> (take lo rs' @ vs @ drop (hi + 1) rs') ! i = vs ! (i - lo)"
    and "r < 16 \<Longrightarrow> r < lo \<or> hi < r \<Longrightarrow> (take lo rs' @ vs @ drop (hi + 1) rs') ! r = rs' ! r"
  using assms by (auto simp: nth_append min_def)

text \<open>
  Claim C3. Let the current instruction be PUSH Rlo,Rhi and the next word POP Rlo,Rhi,
  with \<open>lo < hi\<close>, both predicates satisfied, and room for the range on the data stack:
  below the \<open>size\<close> field, so that PUSH reports no overflow, and inside the words that
  are allocated. Then both cycles return \<open>SVM_OK\<close>. After the first, \<open>sp\<close> has grown by the
  length of the range and the stack holds \<open>Rlo .. Rhi\<close> in ascending order from the old
  \<open>sp\<close> upwards. After the second, every register has its value from before the PUSH and
  \<open>sp\<close> is back. What POP loads does not depend on what the registers hold when it runs:
  on the state the PUSH left, with any register file \<open>rs'\<close> put in place of the registers,
  POP gives \<open>Rhi\<close> the word on top of the stack, the next lower register the word below
  it, and so on down to \<open>Rlo\<close>, which are the values pushed, and leaves the registers
  outside the range as they are in \<open>rs'\<close>.
\<close>

theorem push_pop_range_restores_registers:
  assumes at: "at_instruction vm a t ins"
    and op1: "svm_opcode_of_byte (i_op ins) = Some OP_PUSH"
    and args1: "i_arg1 ins = lo + 1" "i_arg2 ins = hi + 1"
    and c1: "svm_check_condition t (i_ext ins)"
    and nxt: "pc t + 1 < code_size (code vm)"
      "map_option svm_decode (nth_ub (code_buffer (code vm)) (unat (pc t + 1))) = Some ins2"
    and op2: "svm_opcode_of_byte (i_op ins2) = Some OP_POP"
    and args2: "i_arg1 ins2 = lo + 1" "i_arg2 ins2 = hi + 1"
    and c2: "svm_check_condition t (i_ext ins2)"
    and lohi: "lo < hi" "hi < 16"
    and regs: "length (registers t) = 16"
    and room: "unat (sp t) + (hi - lo) < unat (bsize (stack t))"
    and alloc: "unat (sp t) + (hi - lo) < length (buffer (stack t))"
  shows "\<exists>t1 t2.
      svm_cycle h vm = Some (SVM_OK, store_task vm a t1) \<and>
      sp t1 = sp t + word_of_nat (hi + 1 - lo) \<and>
      (\<forall>k \<le> hi - lo. buffer (stack t1) ! (unat (sp t) + k) = registers t ! (lo + k)) \<and>
      svm_cycle h (store_task vm a t1) = Some (SVM_OK, store_task vm a t2) \<and>
      registers t2 = registers t \<and> sp t2 = sp t \<and> pc t2 = pc t + 2 \<and>
      (\<forall>rs'. length rs' = 16 \<longrightarrow>
        (\<exists>t3. svm_cycle h (store_task vm a (t1\<lparr>registers := rs'\<rparr>)) =
                Some (SVM_OK, store_task vm a t3) \<and>
              sp t3 = sp t \<and>
              (\<forall>k \<le> hi - lo.
                 registers t3 ! (hi - k) = buffer (stack t1) ! (unat (sp t1) - 1 - k) \<and>
                 registers t3 ! (hi - k) = registers t ! (hi - k)) \<and>
              (\<forall>r < 16. r < lo \<or> hi < r \<longrightarrow> registers t3 ! r = rs' ! r)))"
proof -
  let ?n = "hi + 1 - lo"
  let ?vs = "take ?n (drop lo (registers t))"
  let ?t1 = "(pushed t ?vs)\<lparr>pc := pc t + 1\<rparr>"
  let ?t3 = "\<lambda>rs'. t\<lparr>pc := pc t + 2, stack := stack (pushed t ?vs),
    registers := take lo rs' @ ?vs @ drop (hi + 1) rs'\<rparr>"
  note cyc = push_pop_range_cycles [OF at op1 args1 c1 nxt op2 args2 c2 lohi regs _ room alloc,
    of _ h]
  have lvs: "length ?vs = ?n" using lohi regs by simp
  have vsn: "?vs ! j = registers t ! (lo + j)" if "j < ?n" for j
    using that lohi regs by simp
  have spb: "unat (sp t) \<le> length (buffer (stack t))" using alloc by simp
  have "unat (bsize (stack t)) < 2 ^ LENGTH(32)" by (rule unsigned_less)
  then have nowrap: "unat (sp t) + ?n < 2 ^ 32" using room lohi(1) by simp
  have sp1: "sp ?t1 = sp t + word_of_nat ?n"
    using lvs by (simp add: pushed_def del: length_take)
  have usp1: "unat (sp ?t1) = unat (sp t) + ?n"
    unfolding sp1 using nowrap by (rule unat_sp_add)
  have asc: "buffer (stack ?t1) ! (unat (sp t) + j) = registers t ! (lo + j)"
    if "j \<le> hi - lo" for j
  proof -
    have j': "j < ?n" using that lohi by simp
    have j: "j < length ?vs" by (simp only: lvs j')
    have "buffer (stack (pushed t ?vs)) ! (unat (sp t) + j) = ?vs ! j"
      using spb j by (rule pushed_ascending)
    also have "\<dots> = registers t ! (lo + j)" using j' by (rule vsn)
    finally show ?thesis by simp
  qed
  have same: "take lo (registers t) @ ?vs @ drop (hi + 1) (registers t) = registers t"
  proof -
    have "drop (hi + 1) (registers t) = drop ?n (drop lo (registers t))"
      using lohi by simp
    then show ?thesis by (simp only: append_take_drop_id)
  qed
  have t1r: "?t1\<lparr>registers := registers t\<rparr> = ?t1" by (simp add: pushed_def)
  have second: "svm_cycle h (store_task vm a ?t1) =
      Some (SVM_OK, store_task vm a (?t3 (registers t)))"
    using cyc [of "registers t"] regs unfolding t1r by simp
  have gen: "\<exists>t3. svm_cycle h (store_task vm a (?t1\<lparr>registers := rs'\<rparr>)) =
              Some (SVM_OK, store_task vm a t3) \<and>
            sp t3 = sp t \<and>
            (\<forall>k \<le> hi - lo.
               registers t3 ! (hi - k) = buffer (stack ?t1) ! (unat (sp ?t1) - 1 - k) \<and>
               registers t3 ! (hi - k) = registers t ! (hi - k)) \<and>
            (\<forall>r < 16. r < lo \<or> hi < r \<longrightarrow> registers t3 ! r = rs' ! r)"
    if len: "length rs' = 16" for rs'
  proof (intro exI [of _ "?t3 rs'"] conjI allI impI)
    show "svm_cycle h (store_task vm a (?t1\<lparr>registers := rs'\<rparr>)) =
        Some (SVM_OK, store_task vm a (?t3 rs'))"
      using cyc [of rs'] len by simp
    show "sp (?t3 rs') = sp t" by simp
  next
    fix k assume k: "k \<le> hi - lo"
    have r1: "registers (?t3 rs') ! (hi - k) = registers t ! (hi - k)"
      using range_update_nth(1) [OF len lvs lohi, of "hi - k"] k lohi vsn [of "hi - k - lo"]
      by simp
    have "unat (sp ?t1) - 1 - k = unat (sp t) + (hi - lo - k)"
      unfolding usp1 using k lohi by simp
    then have "buffer (stack ?t1) ! (unat (sp ?t1) - 1 - k) = registers t ! (lo + (hi - lo - k))"
      using asc [of "hi - lo - k"] by simp
    then have r2: "buffer (stack ?t1) ! (unat (sp ?t1) - 1 - k) = registers t ! (hi - k)"
      using k lohi by simp
    show "registers (?t3 rs') ! (hi - k) = buffer (stack ?t1) ! (unat (sp ?t1) - 1 - k)"
      using r1 r2 by simp
    show "registers (?t3 rs') ! (hi - k) = registers t ! (hi - k)" by (rule r1)
  next
    fix r assume "r < 16" "r < lo \<or> hi < r"
    then show "registers (?t3 rs') ! r = rs' ! r"
      using range_update_nth(2) [OF len lvs lohi, of r] by simp
  qed
  show ?thesis
  proof (rule exI [of _ ?t1], rule exI [of _ "?t3 (registers t)"], intro conjI)
    show "svm_cycle h vm = Some (SVM_OK, store_task vm a ?t1)"
      using cyc [of "registers t"] regs by simp
    show "sp ?t1 = sp t + word_of_nat ?n" by (rule sp1)
    show "\<forall>k\<le>hi - lo. buffer (stack ?t1) ! (unat (sp t) + k) = registers t ! (lo + k)"
      using asc by blast
    show "svm_cycle h (store_task vm a ?t1) = Some (SVM_OK, store_task vm a (?t3 (registers t)))"
      by (rule second)
    show "registers (?t3 (registers t)) = registers t" using same by simp
    show "sp (?t3 (registers t)) = sp t" by simp
    show "pc (?t3 (registers t)) = pc t + 2" by simp
    show "\<forall>rs'. length rs' = 16 \<longrightarrow>
        (\<exists>t3. svm_cycle h (store_task vm a (?t1\<lparr>registers := rs'\<rparr>)) =
                Some (SVM_OK, store_task vm a t3) \<and>
              sp t3 = sp t \<and>
              (\<forall>k \<le> hi - lo.
                 registers t3 ! (hi - k) = buffer (stack ?t1) ! (unat (sp ?t1) - 1 - k) \<and>
                 registers t3 ! (hi - k) = registers t ! (hi - k)) \<and>
              (\<forall>r < 16. r < lo \<or> hi < r \<longrightarrow> registers t3 ! r = rs' ! r))"
      using gen by blast
  qed
qed


lemmas init_defs = init_vm_def svm_task_init_def realloc_words_def SVM_STACK_INIT_SIZE_def
  SVM_CALL_STACK_INIT_SIZE_def demo_vm_def demo_code_def demo_regs_def

text \<open>
  An instance: \<open>push r0 r2\<close>, \<open>pop r0 r2\<close> on a task built by \<open>svm_task_init\<close>, whose
  data stack has the \<open>size\<close> field 32 and eight allocated words.
\<close>

theorem push_pop_range_restores_registers_witness:
  "at_instruction (init_vm demo_push_pop) 0
     (svm_task_init (demo_code demo_push_pop)
        0 demo_regs)
     (svm_decode (svm_pack_instruction 3 0 1 3)) \<and>
   length (buffer (stack
     (svm_task_init (demo_code demo_push_pop)
        0 demo_regs))) = 8 \<and>
   bsize (stack
     (svm_task_init (demo_code demo_push_pop)
        0 demo_regs)) = 32 \<and>
   (\<exists>t1 t2.
      svm_cycle demo_handler
        (init_vm demo_push_pop) =
        Some (SVM_OK, store_task
          (init_vm demo_push_pop) 0 t1) \<and>
      sp t1 = 3 \<and>
      (\<forall>k \<le> 2. buffer (stack t1) ! k = demo_regs ! k) \<and>
      svm_cycle demo_handler (store_task
          (init_vm demo_push_pop) 0 t1) =
        Some (SVM_OK, store_task
          (init_vm demo_push_pop) 0 t2) \<and>
      registers t2 = demo_regs \<and> sp t2 = 0 \<and> pc t2 = 2 \<and>
      (\<forall>rs'. length rs' = 16 \<longrightarrow>
        (\<exists>t3. svm_cycle demo_handler (store_task
                  (init_vm demo_push_pop) 0
                  (t1\<lparr>registers := rs'\<rparr>)) =
                Some (SVM_OK, store_task
                  (init_vm demo_push_pop) 0 t3) \<and>
              sp t3 = 0 \<and>
              (\<forall>k \<le> 2.
                 registers t3 ! (2 - k) = buffer (stack t1) ! (unat (sp t1) - 1 - k) \<and>
                 registers t3 ! (2 - k) = demo_regs ! (2 - k)) \<and>
              (\<forall>r < 16. 2 < r \<longrightarrow> registers t3 ! r = rs' ! r))))"
proof -
  let ?w1 = "svm_pack_instruction 3 0 1 3"
  let ?w2 = "svm_pack_instruction 4 0 1 3"
  let ?t = "svm_task_init (demo_code demo_push_pop) 0 demo_regs"
  let ?vm = "init_vm demo_push_pop"
  have h1: "at_instruction ?vm 0 ?t (svm_decode ?w1)"
    by (simp add: at_instruction_def init_defs nth_ub_def demo_push_pop_def)
  have h2: "svm_opcode_of_byte (i_op (svm_decode ?w1)) = Some OP_PUSH"
    by (simp add: decode_defs svm_opcode_of_byte_def)
  have h3: "i_arg1 (svm_decode ?w1) = 0 + 1" "i_arg2 (svm_decode ?w1) = 2 + 1"
    by (simp_all add: decode_defs)
  have h4: "svm_check_condition ?t (i_ext (svm_decode ?w1))"
    by (simp add: decode_defs svm_check_condition_def svm_ext_of_byte_def)
  have h5: "pc ?t + 1 < code_size (code ?vm)"
    "map_option svm_decode (nth_ub (code_buffer (code ?vm)) (unat (pc ?t + 1))) =
       Some (svm_decode ?w2)"
    by (simp_all add: init_defs nth_ub_def demo_push_pop_def)
  have h6: "svm_opcode_of_byte (i_op (svm_decode ?w2)) = Some OP_POP"
    by (simp add: decode_defs svm_opcode_of_byte_def)
  have h7: "i_arg1 (svm_decode ?w2) = 0 + 1" "i_arg2 (svm_decode ?w2) = 2 + 1"
    by (simp_all add: decode_defs)
  have h8: "svm_check_condition ?t (i_ext (svm_decode ?w2))"
    by (simp add: decode_defs svm_check_condition_def svm_ext_of_byte_def)
  have h9: "(0::nat) < 2" "(2::nat) < 16" by simp_all
  have h10: "length (registers ?t) = 16"
    by (simp add: init_defs)
  have h11: "unat (sp ?t) + (2 - 0) < unat (bsize (stack ?t))"
    by (simp add: init_defs)
  have h12: "unat (sp ?t) + (2 - 0) < length (buffer (stack ?t))"
    by (simp add: init_defs)
  have r: "registers ?t = demo_regs" "sp ?t = 0" "pc ?t = 0"
    "length (buffer (stack ?t)) = 8" "bsize (stack ?t) = 32"
    by (simp_all add: svm_task_init_def Let_def realloc_words_def SVM_STACK_INIT_SIZE_def
        demo_code_def)
  show ?thesis
    using push_pop_range_restores_registers
      [OF h1 h2 h3 h4 h5 h6 h7 h8 h9 h10 h11 h12, of demo_handler] h1
    by (simp add: r)
qed

text \<open>
  The allocation is the limit that counts: on the same task \<open>push r0 r15\<close> passes the
  overflow check against \<open>size = 32\<close> and writes sixteen words into the eight allocated.
\<close>

lemma init_task_push_overruns_allocation:
  "length (buffer (stack (svm_task_init (demo_code [svm_pack_instruction 3 0 1 16]) 0 demo_regs)))
     = 8 \<and>
   svm_cycle demo_handler (init_vm [svm_pack_instruction 3 0 1 16]) = None"
  by (simp add: init_defs svm_cycle_def nth_ub_def upd_ub_def decode_defs svm_switch_def
      svm_opcode_of_byte_def svm_check_condition_def svm_ext_of_byte_def arg_defs on_task_def
      svm_push_def push_range.simps nth_ub_int_def push_value_def word_le_nat_alt
      word_less_nat_alt)


end
